theory Spec2Isabelle
  imports Main
begin

section \<open>Python values\<close>

text \<open>
  A Python \<open>str\<close> is a sequence of Unicode code points, so a string is a list of natural
  numbers and \<open>length\<close> counts what Python's \<open>len\<close> counts. White space and line boundaries
  are the interpreter's tables, complete for all of Unicode. Word characters, digits and
  lower case are the interpreter's tables for the code points below U+0100; from U+0100 on
  they are what the Unicode database of the interpreter says, and that database is a
  parameter \<open>U\<close> of everything that reads it: what is proved below is proved for every
  database.
\<close>

type_synonym ustr = "nat list"

definition u :: "string \<Rightarrow> ustr" where
  "u s = map of_char s"

datatype error = TypeError | AttributeError | ValueError

text \<open>
  The Unicode database from U+0100 on: \<open>str.lower\<close> on a string with a code point from
  there (the mapping may change the length and, for U+03A3, looks at the neighbours, so it is
  given on strings), the word characters of \<^verbatim>\<open>\w\<close> and \<^verbatim>\<open>\b\<close>, the decimal digits with their
  values (what \<^verbatim>\<open>\d\<close> matches and \<open>int\<close> reads), and the further characters \<open>str.isdigit\<close>
  accepts.
\<close>

record unicode =
  str_lower :: "ustr \<Rightarrow> ustr"
  word_char :: "nat \<Rightarrow> bool"
  decimal_value :: "nat \<Rightarrow> nat option"
  other_digit :: "nat \<Rightarrow> bool"

text \<open>The values \<open>json.loads\<close> can produce (numbers with a fraction or an exponent left out).\<close>

datatype pyval =
    PNone
  | PBool bool
  | PInt int
  | PStr ustr
  | PList "pyval list"
  | PDict "(ustr \<times> pyval) list"

fun truthy :: "pyval \<Rightarrow> bool" where
  "truthy PNone = False"
| "truthy (PBool b) = b"
| "truthy (PInt i) = (i \<noteq> 0)"
| "truthy (PStr s) = (s \<noteq> [])"
| "truthy (PList xs) = (xs \<noteq> [])"
| "truthy (PDict kvs) = (kvs \<noteq> [])"

text \<open>\<open>x or d\<close>\<close>

definition py_or :: "pyval \<Rightarrow> pyval \<Rightarrow> pyval" where
  "py_or x d = (if truthy x then x else d)"

text \<open>\<open>x.get(k)\<close>: only a dict has the method.\<close>

fun py_get :: "pyval \<Rightarrow> ustr \<Rightarrow> error + pyval" where
  "py_get (PDict kvs) k = Inr (case map_of kvs k of None \<Rightarrow> PNone | Some v \<Rightarrow> v)"
| "py_get _ k = Inl AttributeError"

subsection \<open>String methods\<close>

definition is_space :: "nat \<Rightarrow> bool" where
  "is_space c \<longleftrightarrow>
     (9 \<le> c \<and> c \<le> 13) \<or> (28 \<le> c \<and> c \<le> 32) \<or> c = 133 \<or> c = 160 \<or> c = 5760 \<or>
     (8192 \<le> c \<and> c \<le> 8202) \<or> c = 8232 \<or> c = 8233 \<or> c = 8239 \<or> c = 8287 \<or> c = 12288"

definition digit_value :: "unicode \<Rightarrow> nat \<Rightarrow> nat option" where
  "digit_value U c =
     (if c < 256 then (if 48 \<le> c \<and> c \<le> 57 then Some (c - 48) else None)
      else decimal_value U c)"

definition is_decimal :: "unicode \<Rightarrow> nat \<Rightarrow> bool" where
  "is_decimal U c \<longleftrightarrow> digit_value U c \<noteq> None"

definition is_digit :: "unicode \<Rightarrow> nat \<Rightarrow> bool" where
  "is_digit U c \<longleftrightarrow>
     is_decimal U c \<or> (if c < 256 then c = 178 \<or> c = 179 \<or> c = 185 else other_digit U c)"

definition is_word :: "unicode \<Rightarrow> nat \<Rightarrow> bool" where
  "is_word U c \<longleftrightarrow>
     (if c < 256
      then (48 \<le> c \<and> c \<le> 57) \<or> (65 \<le> c \<and> c \<le> 90) \<or> c = 95 \<or> (97 \<le> c \<and> c \<le> 122) \<or>
           c = 170 \<or> c = 178 \<or> c = 179 \<or> c = 181 \<or> c = 185 \<or> c = 186 \<or>
           (188 \<le> c \<and> c \<le> 190) \<or> (192 \<le> c \<and> c \<le> 214) \<or> (216 \<le> c \<and> c \<le> 246) \<or>
           (248 \<le> c \<and> c \<le> 255)
      else word_char U c)"

definition is_linebreak :: "nat \<Rightarrow> bool" where
  "is_linebreak c \<longleftrightarrow>
     (10 \<le> c \<and> c \<le> 13) \<or> (28 \<le> c \<and> c \<le> 30) \<or> c = 133 \<or> c = 8232 \<or> c = 8233"

definition lower_cp :: "nat \<Rightarrow> nat" where
  "lower_cp c =
     (if (65 \<le> c \<and> c \<le> 90) \<or> (192 \<le> c \<and> c \<le> 214) \<or> (216 \<le> c \<and> c \<le> 222)
      then c + 32 else c)"

text \<open>\<open>s.lower()\<close>: character by character on a string below U+0100.\<close>

definition lower :: "unicode \<Rightarrow> ustr \<Rightarrow> ustr" where
  "lower U s = (if list_all (\<lambda>c. c < 256) s then map lower_cp s else str_lower U s)"

definition strip :: "ustr \<Rightarrow> ustr" where
  "strip s = rev (dropWhile is_space (rev (dropWhile is_space s)))"

definition startswith :: "ustr \<Rightarrow> ustr \<Rightarrow> bool" where
  "startswith s p \<longleftrightarrow> take (length p) s = p"

definition endswith :: "ustr \<Rightarrow> ustr \<Rightarrow> bool" where
  "endswith s p \<longleftrightarrow> length p \<le> length s \<and> drop (length s - length p) s = p"

text \<open>\<open>sub in s\<close>\<close>

fun contains :: "ustr \<Rightarrow> ustr \<Rightarrow> bool" where
  "contains sub [] = (sub = [])"
| "contains sub (x # xs) = (startswith (x # xs) sub \<or> contains sub xs)"

text \<open>
  \<open>s.splitlines()\<close>: \<open>cur\<close> is the line being read, reversed. \<open>\r\n\<close> is one boundary, and a
  boundary at the very end opens no further line.
\<close>

function splitlines_from :: "ustr \<Rightarrow> ustr \<Rightarrow> ustr list" where
  "splitlines_from [] cur = (if cur = [] then [] else [rev cur])"
| "splitlines_from (c # cs) cur =
     (if c = 13 \<and> cs \<noteq> [] \<and> hd cs = 10 then rev cur # splitlines_from (tl cs) []
      else if is_linebreak c then rev cur # splitlines_from cs []
      else splitlines_from cs (c # cur))"
  by pat_completeness auto
termination
  by (relation "measure (\<lambda>(s, cur). length s)") auto

definition splitlines :: "ustr \<Rightarrow> ustr list" where
  "splitlines s = splitlines_from s []"

text \<open>\<open>xs[-n:]\<close> for \<open>n > 0\<close>\<close>

definition last_n :: "nat \<Rightarrow> 'a list \<Rightarrow> 'a list" where
  "last_n n xs = drop (length xs - n) xs"

text \<open>\<open>s.isdigit()\<close>\<close>

definition isdigit :: "unicode \<Rightarrow> ustr \<Rightarrow> bool" where
  "isdigit U s \<longleftrightarrow> s \<noteq> [] \<and> list_all (is_digit U) s"

text \<open>
  \<open>int(s)\<close> of a string: white space around the number is dropped (the ASCII blanks
  \<^verbatim>\<open>\t\n\v\f\r\<close> and the space, and the Unicode white space from U+007F on), a sign may stand
  first, and the digits, decimal digits of any script, may have single underscores between
  them. Anything else raises \<open>ValueError\<close>, and so do more than 4300 digits, the
  interpreter's limit for the conversion.
\<close>

definition int_max_str_digits :: nat where
  "int_max_str_digits = 4300"

definition int_blank :: "nat \<Rightarrow> bool" where
  "int_blank c \<longleftrightarrow> (9 \<le> c \<and> c \<le> 13) \<or> c = 32 \<or> (127 \<le> c \<and> is_space c)"

definition valid_int_body :: "unicode \<Rightarrow> ustr \<Rightarrow> bool" where
  "valid_int_body U b \<longleftrightarrow>
     b \<noteq> [] \<and> list_all (\<lambda>c. is_decimal U c \<or> c = 95) b \<and> hd b \<noteq> 95 \<and> last b \<noteq> 95 \<and>
     \<not> contains [95, 95] b"

definition digits_value :: "unicode \<Rightarrow> ustr \<Rightarrow> int" where
  "digits_value U s =
     foldl (\<lambda>a c. 10 * a + int (case digit_value U c of None \<Rightarrow> 0 | Some d \<Rightarrow> d)) 0 s"

definition int_of_str :: "unicode \<Rightarrow> ustr \<Rightarrow> error + int" where
  "int_of_str U s =
     (let t = rev (dropWhile int_blank (rev (dropWhile int_blank s)));
          neg = (t \<noteq> [] \<and> hd t = 45);
          body = (if t \<noteq> [] \<and> (hd t = 45 \<or> hd t = 43) then tl t else t);
          ds = filter (\<lambda>c. c \<noteq> 95) body
      in if valid_int_body U body \<and> length ds \<le> int_max_str_digits
         then Inr (if neg then - digits_value U ds else digits_value U ds)
         else Inl ValueError)"

text \<open>
  \<open>str(n)\<close> for an integer, as the f-strings format a finding's line: that is 1 or what \<open>int\<close>
  returned, so it has at most 4300 digits and \<open>str\<close> is within its limit.
\<close>

function digits_of_nat :: "nat \<Rightarrow> ustr" where
  "digits_of_nat n = (if n < 10 then [48 + n] else digits_of_nat (n div 10) @ [48 + n mod 10])"
  by pat_completeness auto
termination
  by (relation "measure id") auto

definition str_of_int :: "int \<Rightarrow> ustr" where
  "str_of_int i = (if i < 0 then 45 # digits_of_nat (nat (- i)) else digits_of_nat (nat i))"

section \<open>Regular expressions\<close>

text \<open>
  The part of Python's \<open>re\<close> the program uses, as a backtracking matcher: alternatives are
  tried left to right, a greedy repetition tries the longest run first and a lazy one the
  shortest, an optional part is tried present first. Repetition is only ever applied to a
  single character class in the program's patterns. \<open>BolM\<close> and \<open>EolM\<close> are \<open>^\<close> and \<open>$\<close>
  under \<open>re.MULTILINE\<close>, \<open>Bol\<close> and \<open>Eol\<close> without it, \<open>EndZ\<close> is \<open>\Z\<close>, \<open>WordB\<close> is \<open>\b\<close>. A
  capturing group carries its number and its name, if it has one.
\<close>

datatype cset = Lit nat | OneOf "nat list" | NoneOf "nat list" | Digit | Space | Word | Dot | AnyChar

fun in_cset :: "unicode \<Rightarrow> cset \<Rightarrow> nat \<Rightarrow> bool" where
  "in_cset U (Lit a) c = (c = a)"
| "in_cset U (OneOf as) c = (c \<in> set as)"
| "in_cset U (NoneOf as) c = (c \<notin> set as)"
| "in_cset U Digit c = is_decimal U c"
| "in_cset U Space c = is_space c"
| "in_cset U Word c = is_word U c"
| "in_cset U Dot c = (c \<noteq> 10)"
| "in_cset U AnyChar c = True"

datatype regex =
    Eps
  | Chr cset
  | Rep cset nat bool
  | Opt regex
  | Seq regex regex
  | Alt regex regex
  | Grp nat "string option" regex
  | Bol | Eol | BolM | EolM | EndZ | WordB

datatype item = R regex | Close nat ustr

fun rsize :: "regex \<Rightarrow> nat" where
  "rsize (Opt r) = rsize r + 1"
| "rsize (Seq a b) = rsize a + rsize b + 1"
| "rsize (Alt a b) = rsize a + rsize b + 1"
| "rsize (Grp n nm r) = rsize r + 2"
| "rsize _ = 1"

fun isize :: "item \<Rightarrow> nat" where
  "isize (R r) = rsize r"
| "isize (Close n st) = 1"

type_synonym caps = "(nat \<times> ustr) list"

text \<open>The character before the position reached after \<open>n\<close> more characters of \<open>s\<close>.\<close>

definition prev_after :: "nat \<Rightarrow> nat option \<Rightarrow> ustr \<Rightarrow> nat option" where
  "prev_after n p s = (if n = 0 then p else Some (s ! (n - 1)))"

definition at_word_boundary :: "unicode \<Rightarrow> nat option \<Rightarrow> ustr \<Rightarrow> bool" where
  "at_word_boundary U p s \<longleftrightarrow>
     (case p of None \<Rightarrow> False | Some c \<Rightarrow> is_word U c) \<noteq>
     (case s of [] \<Rightarrow> False | c # _ \<Rightarrow> is_word U c)"

text \<open>
  \<open>mtch U k p s cs\<close> matches the items \<open>k\<close> one after the other at the text \<open>s\<close>, whose
  previous character is \<open>p\<close>, with the groups \<open>cs\<close> captured so far; it returns the captures
  and the text left over. \<open>try_lens\<close> tries the lengths of a repetition in the order given.
\<close>

function mtch :: "unicode \<Rightarrow> item list \<Rightarrow> nat option \<Rightarrow> ustr \<Rightarrow> caps \<Rightarrow> (caps \<times> ustr) option"
  and try_lens :: "unicode \<Rightarrow> item list \<Rightarrow> nat option \<Rightarrow> ustr \<Rightarrow> caps \<Rightarrow> nat list
                   \<Rightarrow> (caps \<times> ustr) option"
where
  "mtch U [] p s cs = Some (cs, s)"
| "mtch U (Close n st # k) p s cs = mtch U k p s ((n, take (length st - length s) st) # cs)"
| "mtch U (R Eps # k) p s cs = mtch U k p s cs"
| "mtch U (R (Chr c) # k) p s cs =
     (case s of [] \<Rightarrow> None
      | x # xs \<Rightarrow> if in_cset U c x then mtch U k (Some x) xs cs else None)"
| "mtch U (R (Rep c mn greedy) # k) p s cs =
     (let run = length (takeWhile (in_cset U c) s)
      in try_lens U k p s cs (if greedy then rev [mn..<Suc run] else [mn..<Suc run]))"
| "mtch U (R (Opt r) # k) p s cs =
     (case mtch U (R r # k) p s cs of Some res \<Rightarrow> Some res | None \<Rightarrow> mtch U k p s cs)"
| "mtch U (R (Seq a b) # k) p s cs = mtch U (R a # R b # k) p s cs"
| "mtch U (R (Alt a b) # k) p s cs =
     (case mtch U (R a # k) p s cs of Some res \<Rightarrow> Some res | None \<Rightarrow> mtch U (R b # k) p s cs)"
| "mtch U (R (Grp n nm r) # k) p s cs = mtch U (R r # Close n s # k) p s cs"
| "mtch U (R Bol # k) p s cs = (if p = None then mtch U k p s cs else None)"
| "mtch U (R BolM # k) p s cs = (if p = None \<or> p = Some 10 then mtch U k p s cs else None)"
| "mtch U (R Eol # k) p s cs = (if s = [] \<or> s = [10] then mtch U k p s cs else None)"
| "mtch U (R EolM # k) p s cs = (if s = [] \<or> hd s = 10 then mtch U k p s cs else None)"
| "mtch U (R EndZ # k) p s cs = (if s = [] then mtch U k p s cs else None)"
| "mtch U (R WordB # k) p s cs = (if at_word_boundary U p s then mtch U k p s cs else None)"
| "try_lens U k p s cs [] = None"
| "try_lens U k p s cs (n # ns) =
     (case mtch U k (prev_after n p s) (drop n s) cs of
        Some res \<Rightarrow> Some res
      | None \<Rightarrow> try_lens U k p s cs ns)"
  by pat_completeness auto
termination
  by (relation "measures
       [\<lambda>x. case x of Inl (U, k, p, s, cs) \<Rightarrow> sum_list (map isize k)
                    | Inr (U, k, p, s, cs, ns) \<Rightarrow> sum_list (map isize k),
        \<lambda>x. case x of Inl (U, k, p, s, cs) \<Rightarrow> 0
                    | Inr (U, k, p, s, cs, ns) \<Rightarrow> Suc (length ns)]") auto

record rmatch =
  group0 :: ustr
  groups :: caps
  names :: "(string \<times> nat) list"

text \<open>\<open>pattern.groupindex\<close>: the named groups and their numbers.\<close>

fun groupindex :: "regex \<Rightarrow> (string \<times> nat) list" where
  "groupindex (Grp n (Some nm) r) = (nm, n) # groupindex r"
| "groupindex (Grp n None r) = groupindex r"
| "groupindex (Opt r) = groupindex r"
| "groupindex (Seq a b) = groupindex a @ groupindex b"
| "groupindex (Alt a b) = groupindex a @ groupindex b"
| "groupindex _ = []"

text \<open>\<open>m.groupdict().get(nm)\<close>: \<open>None\<close> for a name the pattern does not have and for a group
  that took no part in the match.\<close>

definition groupdict_get :: "rmatch \<Rightarrow> string \<Rightarrow> ustr option" where
  "groupdict_get m nm =
     (case map_of (names m) nm of None \<Rightarrow> None | Some n \<Rightarrow> map_of (groups m) n)"

definition mk_match :: "regex \<Rightarrow> ustr \<Rightarrow> caps \<Rightarrow> nat \<Rightarrow> rmatch" where
  "mk_match r s cs n = \<lparr>group0 = take n s, groups = cs, names = groupindex r\<rparr>"

text \<open>
  \<open>pattern.finditer(s)\<close>: the matches from left to right, each search starting where the
  last match ended. None of the patterns given to \<open>finditer\<close> or \<open>sub\<close> here can match the
  empty string; after an empty match the scan moves on by one character.
\<close>

function finditer_from :: "unicode \<Rightarrow> regex \<Rightarrow> nat option \<Rightarrow> ustr \<Rightarrow> rmatch list" where
  "finditer_from U r p s =
     (case mtch U [R r] p s [] of
        None \<Rightarrow> (case s of [] \<Rightarrow> [] | x # xs \<Rightarrow> finditer_from U r (Some x) xs)
      | Some (cs, rest) \<Rightarrow>
          (let n = length s - length rest in
           if n = 0
           then mk_match r s cs n # (case s of [] \<Rightarrow> [] | x # xs \<Rightarrow> finditer_from U r (Some x) xs)
           else mk_match r s cs n # finditer_from U r (Some (s ! (n - 1))) (drop n s)))"
  by pat_completeness auto
termination
  by (relation "measure (\<lambda>(U, r, p, s). length s)") auto

definition finditer :: "unicode \<Rightarrow> regex \<Rightarrow> ustr \<Rightarrow> rmatch list" where
  "finditer U r s = finditer_from U r None s"

text \<open>\<open>pattern.search(s)\<close>\<close>

fun search_from :: "unicode \<Rightarrow> regex \<Rightarrow> nat option \<Rightarrow> ustr \<Rightarrow> rmatch option" where
  "search_from U r p [] =
     (case mtch U [R r] p [] [] of None \<Rightarrow> None | Some (cs, rest) \<Rightarrow> Some (mk_match r [] cs 0))"
| "search_from U r p (x # xs) =
     (case mtch U [R r] p (x # xs) [] of
        None \<Rightarrow> search_from U r (Some x) xs
      | Some (cs, rest) \<Rightarrow> Some (mk_match r (x # xs) cs (length (x # xs) - length rest)))"

definition re_search :: "unicode \<Rightarrow> regex \<Rightarrow> ustr \<Rightarrow> rmatch option" where
  "re_search U r s = search_from U r None s"

text \<open>\<open>re.sub(pattern, repl, s)\<close> for a replacement without group references.\<close>

function sub_from :: "unicode \<Rightarrow> regex \<Rightarrow> ustr \<Rightarrow> nat option \<Rightarrow> ustr \<Rightarrow> ustr" where
  "sub_from U r repl p s =
     (case mtch U [R r] p s [] of
        None \<Rightarrow> (case s of [] \<Rightarrow> [] | x # xs \<Rightarrow> x # sub_from U r repl (Some x) xs)
      | Some (cs, rest) \<Rightarrow>
          (let n = length s - length rest in
           if n = 0
           then repl @ (case s of [] \<Rightarrow> [] | x # xs \<Rightarrow> x # sub_from U r repl (Some x) xs)
           else repl @ sub_from U r repl (Some (s ! (n - 1))) (drop n s)))"
  by pat_completeness auto
termination
  by (relation "measure (\<lambda>(U, r, repl, p, s). length s)") auto

definition re_sub :: "unicode \<Rightarrow> regex \<Rightarrow> ustr \<Rightarrow> ustr \<Rightarrow> ustr" where
  "re_sub U r repl s = sub_from U r repl None s"

text \<open>Writing patterns: a literal text, a sequence, alternatives.\<close>

definition lit :: "string \<Rightarrow> regex" where
  "lit s = foldr (\<lambda>c r. Seq (Chr (Lit (of_char c))) r) s Eps"

fun seqs :: "regex list \<Rightarrow> regex" where
  "seqs [] = Eps"
| "seqs (r # rs) = Seq r (seqs rs)"

fun alts :: "regex list \<Rightarrow> regex" where
  "alts [] = Eps"
| "alts [r] = r"
| "alts (r # rs) = Alt r (alts rs)"

text \<open>\<open>\s+\<close>, collapsed to one blank by \<open>re.sub(r'\s+', ' ', s)\<close>\<close>

definition collapse_ws :: "unicode \<Rightarrow> ustr \<Rightarrow> ustr" where
  "collapse_ws U s = re_sub U (Rep Space 1 True) [32] s"

section \<open>Finding extractor\<close>

text \<open>A finding is the dict with the keys \<open>file\<close>, \<open>line\<close> and \<open>msg\<close>.\<close>

record finding =
  f_file :: ustr
  f_line :: int
  f_msg :: ustr

text \<open>
  The three pattern families of \<^verbatim>\<open>Chaos Reviewer/Agent.py\<close>, in the order of
  \<open>FILE_LINE_PATTERNS\<close>:
  \<^verbatim>\<open>^(?P<file>[^:\n]+):(?P<line>\d+)(?::\d+)?:\s*error:\s*(?P<msg>.+)$\<close>,
  \<^verbatim>\<open>File "(?P<file>[^"]+)", line (?P<line>\d+).*\n(?P<msg>[\s\S]*?)(?:\n\s*\w.*:|\Z)\<close>,
  \<^verbatim>\<open>(?P<file>[^:\n]+)\((?P<line>\d+),\d+\):\s*error\s+TS\d+:\s*(?P<msg>.+)$\<close>.
\<close>

definition tb_tail :: regex where
  "tb_tail = Alt (seqs [Chr (Lit 10), Rep Space 0 True, Chr Word, Rep Dot 0 True, Chr (Lit 58)]) EndZ"

definition pat_gcc_cr :: regex where
  "pat_gcc_cr = seqs
     [BolM, Grp 1 (Some ''file'') (Rep (NoneOf [58, 10]) 1 True), Chr (Lit 58),
      Grp 2 (Some ''line'') (Rep Digit 1 True),
      Opt (Seq (Chr (Lit 58)) (Rep Digit 1 True)), Chr (Lit 58),
      Rep Space 0 True, lit ''error:'', Rep Space 0 True,
      Grp 3 (Some ''msg'') (Rep Dot 1 True), EolM]"

definition pat_tb_cr :: regex where
  "pat_tb_cr = seqs
     [lit ''File '', Chr (Lit 34), Grp 1 (Some ''file'') (Rep (NoneOf [34]) 1 True),
      Chr (Lit 34), lit '', line '', Grp 2 (Some ''line'') (Rep Digit 1 True),
      Rep Dot 0 True, Chr (Lit 10),
      Grp 3 (Some ''msg'') (Rep AnyChar 0 False), tb_tail]"

definition pat_tsc :: regex where
  "pat_tsc = seqs
     [Grp 1 (Some ''file'') (Rep (NoneOf [58, 10]) 1 True), Chr (Lit 40),
      Grp 2 (Some ''line'') (Rep Digit 1 True), Chr (Lit 44), Rep Digit 1 True,
      Chr (Lit 41), Chr (Lit 58), Rep Space 0 True, lit ''error'', Rep Space 1 True,
      lit ''TS'', Rep Digit 1 True, Chr (Lit 58), Rep Space 0 True,
      Grp 3 (Some ''msg'') (Rep Dot 1 True), EolM]"

definition FILE_LINE_PATTERNS_cr :: "regex list" where
  "FILE_LINE_PATTERNS_cr = [pat_gcc_cr, pat_tb_cr, pat_tsc]"

text \<open>
  Those of \<^verbatim>\<open>agent/agent.py\<close>: the first reads the column as \<^verbatim>\<open>:\d*:?\<close>, and the second,
  \<^verbatim>\<open>File "([^"]+)", line (\d+),.*\n(?P<msg>[\s\S]*?)(?:\n\s*\w.*:|\Z)\<close>, leaves its file and
  line groups without a name.
\<close>

definition pat_gcc_ag :: regex where
  "pat_gcc_ag = seqs
     [BolM, Grp 1 (Some ''file'') (Rep (NoneOf [58, 10]) 1 True), Chr (Lit 58),
      Grp 2 (Some ''line'') (Rep Digit 1 True), Chr (Lit 58),
      Rep Digit 0 True, Opt (Chr (Lit 58)),
      Rep Space 0 True, lit ''error:'', Rep Space 0 True,
      Grp 3 (Some ''msg'') (Rep Dot 1 True), EolM]"

definition pat_tb_ag :: regex where
  "pat_tb_ag = seqs
     [lit ''File '', Chr (Lit 34), Grp 1 None (Rep (NoneOf [34]) 1 True),
      Chr (Lit 34), lit '', line '', Grp 2 None (Rep Digit 1 True), Chr (Lit 44),
      Rep Dot 0 True, Chr (Lit 10),
      Grp 3 (Some ''msg'') (Rep AnyChar 0 False), tb_tail]"

definition FILE_LINE_PATTERNS_ag :: "regex list" where
  "FILE_LINE_PATTERNS_ag = [pat_gcc_ag, pat_tb_ag, pat_tsc]"

text \<open>
  The body of the inner loop: the finding a match gives, kept only if \<^verbatim>\<open>file_ and line_\<close>.
  \<open>int(line_s)\<close> is the one call in it that can raise.
\<close>

definition finding_of_match :: "unicode \<Rightarrow> rmatch \<Rightarrow> error + finding option" where
  "finding_of_match U m =
     (let file' = strip (case groupdict_get m ''file'' of None \<Rightarrow> [] | Some s \<Rightarrow> s)
      in case (case groupdict_get m ''line'' of
                 None \<Rightarrow> Inr 0
               | Some s \<Rightarrow> if s \<noteq> [] \<and> isdigit U s then int_of_str U s else Inr 0) of
           Inl err \<Rightarrow> Inl err
         | Inr line' \<Rightarrow>
             (let msg' = collapse_ws U (strip (case groupdict_get m ''msg'' of
                                                 None \<Rightarrow> group0 m
                                               | Some s \<Rightarrow> if s \<noteq> [] then s else group0 m))
              in Inr (if file' \<noteq> [] \<and> line' \<noteq> 0
                      then Some \<lparr>f_file = file', f_line = line', f_msg = msg'\<rparr> else None)))"

text \<open>The inner loop over the matches of one pattern, left at five findings.\<close>

fun scan_matches :: "unicode \<Rightarrow> rmatch list \<Rightarrow> finding list \<Rightarrow> error + finding list" where
  "scan_matches U [] findings = Inr findings"
| "scan_matches U (m # ms) findings =
     (case finding_of_match U m of
        Inl err \<Rightarrow> Inl err
      | Inr r \<Rightarrow>
          (let findings' = (case r of None \<Rightarrow> findings | Some f \<Rightarrow> findings @ [f])
           in if length findings' \<ge> 5 then Inr findings' else scan_matches U ms findings'))"

text \<open>The outer loop over the patterns, left at five findings as well.\<close>

fun scan_patterns :: "unicode \<Rightarrow> regex list \<Rightarrow> ustr \<Rightarrow> finding list \<Rightarrow> error + finding list" where
  "scan_patterns U [] log_text findings = Inr findings"
| "scan_patterns U (pat # pats) log_text findings =
     (case scan_matches U (finditer U pat log_text) findings of
        Inl err \<Rightarrow> Inl err
      | Inr findings' \<Rightarrow>
          if length findings' \<ge> 5 then Inr findings'
          else scan_patterns U pats log_text findings')"

text \<open>The keyword loop over the last lines, left at three findings.\<close>

fun keyword_scan :: "unicode \<Rightarrow> ustr list \<Rightarrow> finding list \<Rightarrow> finding list" where
  "keyword_scan U [] findings = findings"
| "keyword_scan U (ln # lns) findings =
     (let low = lower U ln
      in if contains (u ''error'') low \<or> contains (u ''assertionerror'') low
            \<or> contains (u ''failed'') low
         then (let findings' = findings @ [\<lparr>f_file = u ''(unknown)'', f_line = 1, f_msg = strip ln\<rparr>]
               in if length findings' \<ge> 3 then findings' else keyword_scan U lns findings')
         else keyword_scan U lns findings)"

definition extract_text :: "unicode \<Rightarrow> regex list \<Rightarrow> ustr \<Rightarrow> error + finding list" where
  "extract_text U pats log_text =
     (case scan_patterns U pats log_text [] of
        Inl err \<Rightarrow> Inl err
      | Inr findings \<Rightarrow>
          Inr (if findings = [] then keyword_scan U (last_n 300 (splitlines log_text)) []
               else findings))"

text \<open>
  \<open>_extract_findings(log_text, lang_hint)\<close> of \<^verbatim>\<open>Chaos Reviewer/Agent.py\<close> scans
  \<open>log_text or ""\<close>; \<open>finditer\<close> raises \<open>TypeError\<close> on anything but a string.
\<close>

definition extract_findings_cr :: "unicode \<Rightarrow> pyval \<Rightarrow> pyval \<Rightarrow> error + finding list" where
  "extract_findings_cr U log_text lang_hint =
     (case py_or log_text (PStr []) of
        PStr s \<Rightarrow> extract_text U FILE_LINE_PATTERNS_cr s
      | _ \<Rightarrow> Inl TypeError)"

text \<open>\<open>_extract_findings\<close> of \<^verbatim>\<open>agent/agent.py\<close> scans \<open>log_text\<close> as it is.\<close>

definition extract_findings_ag :: "unicode \<Rightarrow> pyval \<Rightarrow> pyval \<Rightarrow> error + finding list" where
  "extract_findings_ag U log_text lang_hint =
     (case log_text of
        PStr s \<Rightarrow> extract_text U FILE_LINE_PATTERNS_ag s
      | _ \<Rightarrow> Inl TypeError)"

text \<open>
  What the claims below say about the extractor is stated with two notions: the findings a
  family yields on a text (all its matches, passed through the loop body; an error if
  \<open>int\<close> raises on the line number of one of them), and a finding that came from the keyword
  loop.
\<close>

fun findings_of_matches :: "unicode \<Rightarrow> rmatch list \<Rightarrow> error + finding list" where
  "findings_of_matches U [] = Inr []"
| "findings_of_matches U (m # ms) =
     (case finding_of_match U m of
        Inl err \<Rightarrow> Inl err
      | Inr r \<Rightarrow>
          (case findings_of_matches U ms of
             Inl err \<Rightarrow> Inl err
           | Inr fs \<Rightarrow> Inr (case r of None \<Rightarrow> fs | Some f \<Rightarrow> f # fs)))"

definition family_findings :: "unicode \<Rightarrow> regex \<Rightarrow> ustr \<Rightarrow> error + finding list" where
  "family_findings U pat log_text = findings_of_matches U (finditer U pat log_text)"

definition unknown_finding :: "finding \<Rightarrow> bool" where
  "unknown_finding f \<longleftrightarrow> f_file f = u ''(unknown)'' \<and> f_line f = 1"

text \<open>
  Whitespace normalised, in the words of the specification: each run of white space becomes
  one blank.
\<close>

function squeeze :: "ustr \<Rightarrow> ustr" where
  "squeeze [] = []"
| "squeeze (c # cs) =
     (if is_space c then 32 # squeeze (dropWhile is_space cs) else c # squeeze cs)"
  by pat_completeness auto
termination
  by (relation "measure length") (auto simp: length_dropWhile_le less_Suc_eq_le)

section \<open>Language classifier\<close>

definition endswith_any :: "ustr \<Rightarrow> ustr list \<Rightarrow> bool" where
  "endswith_any s ps \<longleftrightarrow> list_ex (endswith s) ps"

fun guess_lang_from_findings :: "unicode \<Rightarrow> finding list \<Rightarrow> pyval" where
  "guess_lang_from_findings U [] = PNone"
| "guess_lang_from_findings U (f # fs) =
     (let fname = lower U (f_file f)
      in if endswith_any fname [u ''.cpp'', u ''.cc'', u ''.cxx'', u ''.hpp'', u ''.h'', u ''.c'']
         then PStr (u ''cpp'')
         else if endswith_any fname [u ''.py''] then PStr (u ''python'')
         else if endswith_any fname [u ''.ts'', u ''.tsx'', u ''.js'', u ''.jsx'']
         then PStr (u ''typescript'')
         else guess_lang_from_findings U fs)"

section \<open>Remark selector\<close>

text \<open>
  The two draws a call may make: whether \<open>random.random() < 0.25\<close> came out true, and the
  number from which \<open>random.choice\<close> takes its index into the (non-empty) list.
\<close>

record rnd =
  random_below_quarter :: bool
  choice_draw :: nat

definition random_choice :: "rnd \<Rightarrow> 'a list \<Rightarrow> 'a" where
  "random_choice r xs = xs ! (choice_draw r mod length xs)"

text \<open>\<open>d.get(k, default)\<close>\<close>

definition dict_get_default :: "(ustr \<times> 'a) list \<Rightarrow> ustr \<Rightarrow> 'a \<Rightarrow> 'a" where
  "dict_get_default d k dflt = (case map_of d k of None \<Rightarrow> dflt | Some v \<Rightarrow> v)"

subsection \<open>The tables of \<^verbatim>\<open>Chaos Reviewer/Agent.py\<close>\<close>

definition quips_cpp_cr :: "ustr list" where
  "quips_cpp_cr =
     [u ''Ohio code moment: missing return cooked the build.'',
      u ''6-7'' @ [8230] @ u '' and the function dipped before returning. Skibidi no return.'',
      u ''Control path NPC'' @ [8217] @ u ''d out. Add a return, blud.'',
      u ''Cooked path. Low taper fade your logic and return something, fr.'']"

definition quips_python_cr :: "ustr list" where
  "quips_python_cr =
     [u ''Traceback doing doom scrolling. Add the check, keep it sigma.'',
      u ''Cringe None bug. Did you pray today? Add a guard.'',
      u ''Sussy exception arc '' @ [8212] @ u '' tighten that branch, biggest bird style.'']"

definition quips_typescript_cr :: "ustr list" where
  "quips_typescript_cr =
     [u ''Types won'' @ [8217] @ u ''t glaze themselves '' @ [8212] @ u '' narrow it, gigachad dev.'',
      u ''TS said '' @ [8216] @ u ''string'' @ [8217] @ u '', you gave '' @ [8216] @ u ''number'' @ [8217] @ u ''. Ohio assign, fr.'',
      u ''Rizz up the types: refine that union, shmlawg.'']"

definition quips_default_cr :: "ustr list" where
  "quips_default_cr =
     [u ''Cooked build. Not the mosquito again.'',
      u ''Goofy ahh pipeline crashed out '' @ [8212] @ u '' apply the fix and mew on.'',
      u ''Put the fries in the bag'' @ [8230] @ u '' and the return in the function.'',
      u ''Goated with the sauce once tests pass, blud.'',
      u ''Skibidi'',
      u ''Sigma'',
      u ''Chad'',
      u ''Gigachad'',
      u ''Fine Shyt '' @ [8211] @ u '' work hard'']"

definition quips_italian_cr :: "ustr list" where
  "quips_italian_cr =
     [u ''Ballerina Cappuccina pirouetted away with your semicolons.'',
      u ''Bombombini Gusini says add that return, fr.'',
      u ''Tralalero Tralala stomping the bug with Nike on.'',
      u ''Chimpanzini Bananini approved the patch diff.'']"

definition quips_basic_cr :: "ustr list" where
  "quips_basic_cr =
     [u ''Negative Aura'']"

definition QUIPS_BRAINROT_cr :: "(ustr \<times> ustr list) list" where
  "QUIPS_BRAINROT_cr =
     [(u ''cpp'', quips_cpp_cr),
      (u ''python'', quips_python_cr),
      (u ''typescript'', quips_typescript_cr),
      (u ''default'', quips_default_cr),
      (u ''italian'', quips_italian_cr),
      (u ''basic'', quips_basic_cr)]"

text \<open>
  \<open>_brainrot_quip_raw(lang, basic)\<close>: \<open>(lang or "").lower()\<close> fails on a language hint that is
  true but no string.
\<close>

definition brainrot_quip_raw_cr :: "unicode \<Rightarrow> rnd \<Rightarrow> pyval \<Rightarrow> bool \<Rightarrow> error + ustr" where
  "brainrot_quip_raw_cr U r lang basic =
     (if basic then Inr (random_choice r quips_basic_cr)
      else case py_or lang (PStr []) of
             PStr s \<Rightarrow>
               (let pool = dict_get_default QUIPS_BRAINROT_cr (lower U s) quips_default_cr;
                    picks = pool @ (if random_below_quarter r then quips_italian_cr else [])
                in Inr (random_choice r picks))
           | _ \<Rightarrow> Inl AttributeError)"

subsection \<open>The tables of \<^verbatim>\<open>agent/agent.py\<close>\<close>

definition quips_cpp_ag :: "ustr list" where
  "quips_cpp_ag =
     [u ''Ohio code moment: missing return cooked the build.'',
      u ''Ballerina Cappuccina pirouetted away with your semicolons.'',
      u ''6-7'' @ [8230] @ u '' and the function dipped before returning. Skibidi no return.'',
      u ''Control path NPC'' @ [8217] @ u ''d out. Add a return, blud.'',
      u ''Cooked path. Low taper fade your logic and return something, fr.'']"

definition quips_python_ag :: "ustr list" where
  "quips_python_ag =
     [u ''Traceback doing doom scrolling. Add the check, keep it sigma.'',
      u ''Bombombini Gusini says add that return, fr.'',
      u ''Tralalero Tralala stomping the bug with Nike on.Cringe None bug. Did you pray today? Add a guard.'',
      u ''Sussy exception arc '' @ [8212] @ u '' tighten that branch, biggest bird style.'']"

definition quips_typescript_ag :: "ustr list" where
  "quips_typescript_ag =
     [u ''Types won'' @ [8217] @ u ''t glaze themselves '' @ [8212] @ u '' narrow it, gigachad dev.'',
      u ''TS said '' @ [8216] @ u ''string'' @ [8217] @ u '', you gave '' @ [8216] @ u ''number'' @ [8217] @ u ''. Ohio assign, fr.'',
      u ''Rizz up the types: refine that union, shmlawg.'',
      u ''Ballerina Cappuccina pirouetted away with your semicolons.'',
      u ''Bombombini Gusini says add that return, fr.'',
      u ''Tralalero Tralala stomping the bug with Nike on.'',
      u ''Chimpanzini Bananini approved the patch diff.'']"

definition quips_default_ag :: "ustr list" where
  "quips_default_ag =
     [u ''Cooked build. Not the mosquito again.'',
      u ''Goofy ahh pipeline crashed out '' @ [8212] @ u '' apply the fix and mew on.'',
      u ''Put the fries in the bag'' @ [8230] @ u '' and the return in the function.'',
      u ''Goated with the sauce once tests pass, blud.'',
      u ''Skibidi'',
      u ''Sigma'',
      u ''Chad'',
      u ''Gigachad'',
      u ''Fine Shyt '' @ [8211] @ u '' work hard'']"

definition quips_italian_ag :: "ustr list" where
  "quips_italian_ag =
     [u ''Ballerina Cappuccina pirouetted away with your semicolons.'',
      u ''Bombombini Gusini says add that return, fr.'',
      u ''Tralalero Tralala stomping the bug with Nike on.'',
      u ''Chimpanzini Bananini approved the patch diff.'']"

definition quips_basic_ag :: "ustr list" where
  "quips_basic_ag =
     [u ''Negative Aura'']"

definition QUIPS_BRAINROT_ag :: "(ustr \<times> ustr list) list" where
  "QUIPS_BRAINROT_ag =
     [(u ''cpp'', quips_cpp_ag),
      (u ''python'', quips_python_ag),
      (u ''typescript'', quips_typescript_ag),
      (u ''default'', quips_default_ag),
      (u ''italian'', quips_italian_ag),
      (u ''basic'', quips_basic_ag)]"

definition brainrot_quip_raw_ag :: "unicode \<Rightarrow> rnd \<Rightarrow> pyval \<Rightarrow> bool \<Rightarrow> error + ustr" where
  "brainrot_quip_raw_ag U r lang basic =
     (if basic then Inr (random_choice r quips_basic_ag)
      else case py_or lang (PStr []) of
             PStr s \<Rightarrow>
               (let pool = dict_get_default QUIPS_BRAINROT_ag (lower U s) quips_default_ag;
                    picks = pool @ (if random_below_quarter r then quips_italian_ag else [])
                in Inr (random_choice r picks))
           | _ \<Rightarrow> Inl AttributeError)"

subsection \<open>The tables of \<^verbatim>\<open>agent/webhook.py\<close>\<close>

definition quips_cpp_wh :: "ustr list" where
  "quips_cpp_wh =
     [u ''Ohio code moment: missing return cooked the build.'',
      u ''6-7'' @ [8230] @ u '' and the function dipped before returning. Skibidi no return.'',
      u ''Control path NPC'' @ [8217] @ u ''d out. Add a return, blud.'',
      u ''Cooked path. Low taper fade your logic and return something, fr.'']"

definition quips_python_wh :: "ustr list" where
  "quips_python_wh =
     [u ''Traceback doing doom scrolling. Add the check, keep it sigma.'',
      u ''Cringe None bug. Did you pray today? Add a guard.'',
      u ''Sussy exception arc '' @ [8212] @ u '' tighten that branch, biggest bird style.'']"

definition quips_typescript_wh :: "ustr list" where
  "quips_typescript_wh =
     [u ''Types won'' @ [8217] @ u ''t glaze themselves '' @ [8212] @ u '' narrow it, gigachad dev.'',
      u ''TS said '' @ [8216] @ u ''string'' @ [8217] @ u '', you gave '' @ [8216] @ u ''number'' @ [8217] @ u ''. Ohio assign, fr.'',
      u ''Rizz up the types: refine that union, shmlawg.'']"

definition quips_default_wh :: "ustr list" where
  "quips_default_wh =
     [u ''Cooked build. Not the mosquito again.'',
      u ''Goofy ahh pipeline crashed out '' @ [8212] @ u '' apply the fix and mew on.'',
      u ''Put the fries in the bag'' @ [8230] @ u '' and the return in the function.'',
      u ''Goated with the sauce once tests pass, blud.'',
      u ''Skibidi'',
      u ''Sigma'',
      u ''Chad'',
      u ''Gigachad'',
      u ''Fine Shyt '' @ [8211] @ u '' work hard'']"

definition quips_basic_wh :: "ustr list" where
  "quips_basic_wh =
     [u ''Negative Aura '' @ [8211] @ u '' A made-up term used to describe someone with a bad vibe or uncool energy. When someone loses so many aura points that they'' @ [8217] @ u ''re put in the negative, then they have negative aura.'']"

definition QUIPS_wh :: "(ustr \<times> ustr list) list" where
  "QUIPS_wh =
     [(u ''cpp'', quips_cpp_wh),
      (u ''python'', quips_python_wh),
      (u ''typescript'', quips_typescript_wh),
      (u ''default'', quips_default_wh),
      (u ''basic'', quips_basic_wh)]"

definition ITALIAN :: "ustr list" where
  "ITALIAN =
     [u ''Ballerina Cappuccina pirouetted away with your semicolons.'',
      u ''Bombombini Gusini says add that return, fr.'',
      u ''Tralalero Tralala stomping the bug with Nike on.'',
      u ''Chimpanzini Bananini approved the patch diff.'']"

text \<open>\<open>quip(lang, basic, spice)\<close> with the default \<open>spice = 0.25\<close>; \<open>lang\<close> is a string.\<close>

definition quip :: "rnd \<Rightarrow> ustr \<Rightarrow> bool \<Rightarrow> ustr" where
  "quip r lang basic =
     (if basic then random_choice r quips_basic_wh
      else (let pool = dict_get_default QUIPS_wh lang quips_default_wh;
                pool' = (if random_below_quarter r then pool @ ITALIAN else pool)
            in random_choice r pool'))"

section \<open>Fix composer and explanation composer\<close>

text \<open>
  The generation oracles are \<open>_asi_chat_once\<close> and \<open>_free_llm_chat_once\<close>: requests over the
  network, so parameters here. The prompt a composer sends is a fixed text around the first
  finding (and the language, for the explanation; the \<open>BRAINROT\<close> toggle picks between two
  such texts), so an oracle is given as a function of what the prompt is built from; any
  function of the prompt text is one. \<open>None\<close> is no answer: the call failed or was not
  configured. \<open>json.loads\<close> is a parameter as well, \<open>None\<close> when it raises.
\<close>

datatype request = FixRequest finding | SolutionRequest pyval finding

record env =
  ASI1_API_KEY :: ustr
  LLM_OK :: bool
  asi_chat_once :: "request \<Rightarrow> ustr option"
  free_llm_chat_once :: "request \<Rightarrow> ustr option"
  json_loads :: "ustr \<Rightarrow> pyval option"

text \<open>Truth of an \<open>Optional[str]\<close>\<close>

definition truthy_str :: "ustr option \<Rightarrow> bool" where
  "truthy_str r = (case r of None \<Rightarrow> False | Some s \<Rightarrow> s \<noteq> [])"

text \<open>
  The two attempts, as both \<open>_llm_one_liner\<close> and \<open>_llm_solution_text\<close> make them: the primary
  provider if a key is set, then the local one if that gave nothing.
\<close>

definition llm_reply :: "env \<Rightarrow> request \<Rightarrow> ustr option" where
  "llm_reply e req =
     (let reply = (if ASI1_API_KEY e \<noteq> [] then asi_chat_once e req else None)
      in if \<not> truthy_str reply then free_llm_chat_once e req else reply)"

definition llm_one_liner :: "env \<Rightarrow> finding list \<Rightarrow> ustr option" where
  "llm_one_liner e findings =
     (case findings of
        [] \<Rightarrow> None
      | f0 # _ \<Rightarrow>
          (let reply = llm_reply e (FixRequest f0)
           in if truthy_str reply then map_option strip reply else None))"

definition llm_solution_text :: "unicode \<Rightarrow> env \<Rightarrow> finding list \<Rightarrow> pyval \<Rightarrow> ustr option" where
  "llm_solution_text U e findings lang =
     (case findings of
        [] \<Rightarrow> None
      | f0 # _ \<Rightarrow>
          (case llm_reply e (SolutionRequest lang f0) of
             None \<Rightarrow> None
           | Some reply \<Rightarrow>
               if reply = [] then None
               else (let text = collapse_ws U (strip reply)
                     in Some (take 350 text @ (if length text > 350 then [8230] else [])))))"

text \<open>
  \<open>loc\<close>: \<open>f"{file}:{line}"\<close> if both are true, else empty; and the f-string that puts
  \<open>loc\<close>, a blank, an em dash (U+2014) and a blank before \<open>s\<close>.
\<close>

definition loc_of :: "finding \<Rightarrow> ustr" where
  "loc_of f0 =
     (if f_file f0 \<noteq> [] \<and> f_line f0 \<noteq> 0 then f_file f0 @ [58] @ str_of_int (f_line f0) else [])"

definition with_loc :: "ustr \<Rightarrow> ustr \<Rightarrow> ustr" where
  "with_loc loc s = loc @ [32, 8212, 32] @ s"

text \<open>The substring table of \<^verbatim>\<open>Chaos Reviewer/Agent.py\<close>: roast and tip for a lowercased message.\<close>

definition roast_tip :: "ustr \<Rightarrow> ustr \<times> ustr" where
  "roast_tip msg' =
      (if contains (u ''zerodivisionerror'') msg' \<or>
          contains (u ''division by zero'') msg'
       then ([128128] @ u '' math said '' @ [8216] @ u ''nah'' @ [8217] @ u '' fr fr '' @ [8212],
             u ''add a divisor==0 guard before the divide.'')
       else if contains (u ''control reaches end of non-void'') msg'
       then ([128557] @ u '' function ghosted the return '' @ [8212],
             u ''ensure every path returns a value.'')
       else if contains (u ''undefined reference'') msg' \<or>
          contains (u ''ld returned 1 exit'') msg' \<or>
          contains (u ''linker'') msg'
       then ([129313] @ u '' linker cooked '' @ [8212],
             u ''link missing obj/lib or implement the symbol.'')
       else if contains (u ''modulenotfounderror'') msg'
       then ([128230] @ u '' not installed, bestie '' @ [8212],
             u ''pip install it / add to requirements.txt.'')
       else if contains (u ''cannot import name'') msg'
       then ([128256] @ u '' import beef '' @ [8212],
             u ''use the moved symbol or pin compatible versions.'')
       else if contains (u ''nonetype'') msg' \<or>
          (contains (u ''attributeerror'') msg' \<and> contains (u ''none'') msg')
       then ([128128] @ u '' null vibes '' @ [8212],
             u ''guard for None or ensure the factory returns an instance.'')
       else if contains (u ''not defined'') msg' \<or>
          contains (u ''nameerror'') msg'
       then ([129504] @ u '' forgot the symbol '' @ [8212],
             u ''define/import it before use.'')
       else if contains (u ''type mismatch'') msg' \<or>
          contains (u ''cannot convert'') msg' \<or>
          contains (u ''typeerror'') msg'
       then ([127917] @ u '' types beefing '' @ [8212],
             u ''cast/adjust signature or fix callsite type.'')
       else if contains (u ''assert'') msg' \<or>
          contains (u ''failed'') msg'
       then ([128293] @ u '' assertion said '' @ [8216] @ u ''cap'' @ [8217] @ u '' '' @ [8212],
             u ''fix the logic or update precondition.'')
       else ([129513] @ u '' first error is the boss '' @ [8212],
             u ''fix the top one; others will fall in line.''))"

definition heuristic_fix_cr :: "unicode \<Rightarrow> finding list \<Rightarrow> ustr" where
  "heuristic_fix_cr U findings =
     (let msg' = (case findings of [] \<Rightarrow> [] | f0 # _ \<Rightarrow> lower U (f_msg f0));
          loc = (case findings of [] \<Rightarrow> [] | f0 # _ \<Rightarrow> loc_of f0);
          ln = (case roast_tip msg' of (roast, tip) \<Rightarrow> roast @ [32] @ tip)
      in if loc \<noteq> [] then with_loc loc ln else ln)"

text \<open>
  \<open>_concise_fix_or_summary(findings, lang)\<close> of \<^verbatim>\<open>Chaos Reviewer/Agent.py\<close>. A fix comes back
  for a non-empty list only, so \<open>findings[0]\<close> is there where it is read.
\<close>

definition concise_fix_or_summary_cr :: "unicode \<Rightarrow> env \<Rightarrow> finding list \<Rightarrow> pyval \<Rightarrow> ustr" where
  "concise_fix_or_summary_cr U e findings lang =
     (case llm_one_liner e findings of
        None \<Rightarrow> heuristic_fix_cr U findings
      | Some fix \<Rightarrow>
          if fix = [] then heuristic_fix_cr U findings
          else (case findings of
                  [] \<Rightarrow> fix
                | f0 # _ \<Rightarrow>
                    (let loc = loc_of f0
                     in if loc \<noteq> [] \<and> \<not> startswith (lower U fix) (lower U loc)
                        then with_loc loc fix else fix)))"

text \<open>\<^verbatim>\<open>agent/agent.py\<close>: one oracle, asked only if the start-up ping set \<open>LLM_OK\<close>.\<close>

definition micro_fix_suggestion :: "env \<Rightarrow> finding list \<Rightarrow> ustr option" where
  "micro_fix_suggestion e findings =
     (case findings of
        [] \<Rightarrow> None
      | f0 # _ \<Rightarrow>
          if \<not> LLM_OK e then None
          else (let reply = asi_chat_once e (FixRequest f0)
                in if truthy_str reply then reply else None))"

definition tip_ag :: "ustr \<Rightarrow> ustr" where
  "tip_ag msg' =
      (if contains (u ''control reaches end of non-void function'') msg'
       then u ''add a return on all paths (e.g., return <value>;)''
       else if contains (u ''undefined reference'') msg' \<or>
          contains (u ''linker'') msg'
       then u ''link missing object/library or provide the definition''
       else if contains (u ''not defined'') msg' \<or>
          contains (u ''nameerror'') msg'
       then u ''define/import the symbol before use''
       else if contains (u ''type mismatch'') msg' \<or>
          contains (u ''cannot convert'') msg'
       then u ''adjust the type/cast or the function signature''
       else if contains (u ''assert'') msg' \<or>
          contains (u ''failed'') msg'
       then u ''update precondition or fix logic to satisfy the assertion''
       else u ''fix the first reported error; later ones cascade'')"

definition heuristic_fix_ag :: "unicode \<Rightarrow> finding list \<Rightarrow> ustr" where
  "heuristic_fix_ag U findings =
     (let msg' = (case findings of [] \<Rightarrow> [] | f0 # _ \<Rightarrow> lower U (f_msg f0));
          loc = (case findings of [] \<Rightarrow> [] | f0 # _ \<Rightarrow> loc_of f0);
          tip = tip_ag msg';
          base = (if loc \<noteq> [] then with_loc loc tip else tip)
      in strip (collapse_ws U base))"

definition concise_fix_or_summary_ag :: "unicode \<Rightarrow> env \<Rightarrow> finding list \<Rightarrow> pyval \<Rightarrow> ustr" where
  "concise_fix_or_summary_ag U e findings lang =
     (case micro_fix_suggestion e findings of
        None \<Rightarrow> heuristic_fix_ag U findings
      | Some fix \<Rightarrow>
          if fix = [] then heuristic_fix_ag U findings
          else (case findings of
                  [] \<Rightarrow> fix
                | f0 # _ \<Rightarrow>
                    (let loc = loc_of f0 in if loc \<noteq> [] then with_loc loc fix else fix)))"

text \<open>\<open>fix_line(find)\<close> of \<^verbatim>\<open>agent/webhook.py\<close>, on the tuple \<open>first_finding\<close> returns or \<open>None\<close>.\<close>

definition GREETING_LINE :: ustr where
  "GREETING_LINE = u ''shut your b*tch *ss up and provide the error''"

definition fix_line :: "unicode \<Rightarrow> (ustr \<times> int \<times> ustr) option \<Rightarrow> ustr" where
  "fix_line U finding =
     (case finding of
        None \<Rightarrow> GREETING_LINE
      | Some (file', line', msg') \<Rightarrow>
          (let msg_l = lower U msg';
               loc = file' @ [58] @ str_of_int line';
               tip =
      (if contains (u ''control reaches end of non-void function'') msg_l
       then u ''add a return on all paths (e.g., return <value>;)''
       else if contains (u ''undefined reference'') msg_l \<or>
          contains (u ''ld returned 1 exit status'') msg_l \<or>
          contains (u ''linker'') msg_l
       then u ''link missing object/library or provide the definition''
       else if contains (u ''not defined'') msg_l \<or>
          contains (u ''nameerror'') msg_l
       then u ''define/import the symbol before use''
       else if contains (u ''type '' @ [39] @ u ''number'' @ [39] @ u '' is not assignable to type '' @ [39] @ u ''string'' @ [39]) msg_l \<or>
          contains (u ''type mismatch'') msg_l \<or>
          contains (u ''cannot convert'') msg_l
       then u ''adjust the type/cast or the function signature''
       else if contains (u ''assert'') msg_l \<or>
          contains (u ''failed'') msg_l
       then u ''update precondition or fix logic to satisfy the assertion''
       else u ''fix the first reported error; later ones cascade'')
           in with_loc loc tip))"

section \<open>Intent detectors\<close>

text \<open>
  Under \<open>re.I\<close> a letter of the pattern matches both cases, and \<open>i\<close>, \<open>s\<close> and \<open>k\<close> also match
  U+0130 and U+0131, U+017F, and U+212A.
\<close>

definition ci_class :: "char \<Rightarrow> cset" where
  "ci_class c =
     (let n = of_char c
      in if 97 \<le> n \<and> n \<le> 122
         then OneOf ([n, n - 32] @
                (if n = 105 then [304, 305] else if n = 115 then [383]
                 else if n = 107 then [8490] else []))
         else Lit n)"

definition lit_ci :: "string \<Rightarrow> regex" where
  "lit_ci s = foldr (\<lambda>c r. Seq (Chr (ci_class c)) r) s Eps"

text \<open>
  \<^verbatim>\<open>\b(hi|hello|hey|yo|sup|hola|namaste|what\'?s up|gm|good (morning|afternoon|evening))\b\<close>
\<close>

definition GREET_PAT :: regex where
  "GREET_PAT = seqs
     [WordB,
      Grp 1 None (alts
        [lit_ci ''hi'', lit_ci ''hello'', lit_ci ''hey'', lit_ci ''yo'', lit_ci ''sup'',
         lit_ci ''hola'', lit_ci ''namaste'',
         seqs [lit_ci ''what'', Opt (Chr (Lit 39)), lit_ci ''s up''],
         lit_ci ''gm'',
         seqs [lit_ci ''good '',
               Grp 2 None (alts [lit_ci ''morning'', lit_ci ''afternoon'', lit_ci ''evening''])]]),
      WordB]"

text \<open>
  \<^verbatim>\<open>\b(thanks|thank you|ty|appreciate|you(\s*are|\'re)? (good|great|amazing|awesome|goat|goated))\b\<close>
\<close>

definition PRAISE_PAT :: regex where
  "PRAISE_PAT = seqs
     [WordB,
      Grp 1 None (alts
        [lit_ci ''thanks'', lit_ci ''thank you'', lit_ci ''ty'', lit_ci ''appreciate'',
         seqs [lit_ci ''you'',
               Opt (Grp 2 None (Alt (Seq (Rep Space 0 True) (lit_ci ''are''))
                                    (Seq (Chr (Lit 39)) (lit_ci ''re'')))),
               Chr (Lit 32),
               Grp 3 None (alts [lit_ci ''good'', lit_ci ''great'', lit_ci ''amazing'',
                                 lit_ci ''awesome'', lit_ci ''goat'', lit_ci ''goated''])]]),
      WordB]"

text \<open>
  \<^verbatim>\<open>^\s*(return\s+[01]\s*;?\s*$|gg\s*king$|build\s+passed$|ok\s*$|fixed\s*$|works\s*!*)\<close>
\<close>

definition SUCCESS_PAT :: regex where
  "SUCCESS_PAT = seqs
     [Bol, Rep Space 0 True,
      Grp 1 None (alts
        [seqs [lit_ci ''return'', Rep Space 1 True, Chr (OneOf [48, 49]), Rep Space 0 True,
               Opt (Chr (Lit 59)), Rep Space 0 True, Eol],
         seqs [lit_ci ''gg'', Rep Space 0 True, lit_ci ''king'', Eol],
         seqs [lit_ci ''build'', Rep Space 1 True, lit_ci ''passed'', Eol],
         seqs [lit_ci ''ok'', Rep Space 0 True, Eol],
         seqs [lit_ci ''fixed'', Rep Space 0 True, Eol],
         seqs [lit_ci ''works'', Rep Space 0 True, Rep (Lit 33) 0 True]])]"

definition looks_like_success :: "unicode \<Rightarrow> ustr \<Rightarrow> bool" where
  "looks_like_success U text \<longleftrightarrow> re_search U SUCCESS_PAT text \<noteq> None"

section \<open>Reply assembler of \<^verbatim>\<open>Chaos Reviewer/Agent.py\<close>\<close>

text \<open>
  A chat message is taken as its content list; what the handler hands to \<open>ctx.send\<close> is a
  chat message, given by the texts of its \<open>TextContent\<close> items, or an acknowledgement.
\<close>

datatype content = TextContent ustr | StartSessionContent | EndSessionContent

datatype sent = ChatMessage "ustr list" | ChatAcknowledgement

definition collect_text :: "content list \<Rightarrow> ustr" where
  "collect_text cs = concat (map (\<lambda>c. case c of TextContent t \<Rightarrow> t | _ \<Rightarrow> []) cs)"

definition send_two_bubbles :: "ustr \<Rightarrow> ustr \<Rightarrow> ustr list option \<Rightarrow> sent list" where
  "send_two_bubbles line1 line2 extra_lines_bubble1 =
     ChatMessage (line1 # (case extra_lines_bubble1 of
                             None \<Rightarrow> []
                           | Some ts \<Rightarrow> filter (\<lambda>t. t \<noteq> []) ts))
     # (if line2 \<noteq> [] then [ChatMessage [line2]] else [])"

text \<open>\<open>x.strip()\<close> on a value: only a string has the method.\<close>

definition py_strip :: "pyval \<Rightarrow> error + ustr" where
  "py_strip v = (case v of PStr s \<Rightarrow> Inr (strip s) | _ \<Rightarrow> Inl AttributeError)"

text \<open>\<open>((data.get("context") or {}).get("lang")) or None\<close>\<close>

definition context_lang :: "pyval \<Rightarrow> error + pyval" where
  "context_lang data =
     (case py_get data (u ''context'') of
        Inl err \<Rightarrow> Inl err
      | Inr c \<Rightarrow>
          (case py_get (py_or c (PDict [])) (u ''lang'') of
             Inl err \<Rightarrow> Inl err
           | Inr l \<Rightarrow> Inr (py_or l PNone)))"

text \<open>\<open>(data.get(k) or "").strip()\<close>\<close>

definition stripped_field :: "pyval \<Rightarrow> ustr \<Rightarrow> error + ustr" where
  "stripped_field data k =
     (case py_get data k of
        Inl err \<Rightarrow> Inl err
      | Inr v \<Rightarrow> py_strip (py_or v (PStr [])))"

text \<open>The closing acknowledgement of a turn.\<close>

definition acked :: "error + sent list \<Rightarrow> error + sent list" where
  "acked x = (case x of Inl err \<Rightarrow> Inl err | Inr ms \<Rightarrow> Inr (ms @ [ChatAcknowledgement]))"

text \<open>A fixed first line with a remark from the default table.\<close>

definition reply_fixed_cr :: "unicode \<Rightarrow> rnd \<Rightarrow> ustr \<Rightarrow> error + sent list" where
  "reply_fixed_cr U r line1 =
     (case brainrot_quip_raw_cr U r PNone False of
        Inl err \<Rightarrow> Inl err
      | Inr line2 \<Rightarrow> Inr (send_two_bubbles line1 line2 None))"

text \<open>The reply to a non-empty list of findings.\<close>

definition reply_with_fix_cr :: "unicode \<Rightarrow> env \<Rightarrow> rnd \<Rightarrow> finding list \<Rightarrow> pyval \<Rightarrow> error + sent list" where
  "reply_with_fix_cr U e r findings lang =
     (let line1 = concise_fix_or_summary_cr U e findings lang;
          basic = (case findings of [] \<Rightarrow> False | f0 # _ \<Rightarrow> f_file f0 = u ''(unknown)'')
      in case brainrot_quip_raw_cr U r lang basic of
           Inl err \<Rightarrow> Inl err
         | Inr line2 \<Rightarrow>
             (let solution = llm_solution_text U e findings lang;
                  extra = (case solution of
                             None \<Rightarrow> None
                           | Some s \<Rightarrow> if s \<noteq> [] then Some [u ''Solution: '' @ s] else None)
              in Inr (send_two_bubbles line1 line2 extra)))"

text \<open>Plain-text triage, greeting and default persona.\<close>

definition triage_cr :: "unicode \<Rightarrow> env \<Rightarrow> rnd \<Rightarrow> ustr \<Rightarrow> error + sent list" where
  "triage_cr U e r text =
     (case extract_findings_cr U (PStr text) PNone of
        Inl err \<Rightarrow> Inl err
      | Inr findings \<Rightarrow>
          if findings \<noteq> []
          then acked (reply_with_fix_cr U e r findings (guess_lang_from_findings U findings))
          else if re_search U GREET_PAT text \<noteq> None
          then acked (reply_fixed_cr U r (u ''shut up and provide the error''))
          else acked (reply_fixed_cr U r (u ''shut  up and provide the error'')))"

text \<open>The JSON path, for a dict with a \<open>log_tail\<close> or a \<open>text\<close> key.\<close>

definition envelope_cr :: "unicode \<Rightarrow> env \<Rightarrow> rnd \<Rightarrow> pyval \<Rightarrow> ustr \<Rightarrow> error + sent list" where
  "envelope_cr U e r data text =
     (case context_lang data of
        Inl err \<Rightarrow> Inl err
      | Inr lang \<Rightarrow>
     (case stripped_field data (u ''log_tail'') of
        Inl err \<Rightarrow> Inl err
      | Inr raw_payload \<Rightarrow>
     (case stripped_field data (u ''text'') of
        Inl err \<Rightarrow> Inl err
      | Inr free_text \<Rightarrow>
          if raw_payload \<noteq> []
          then (case extract_findings_cr U (PStr raw_payload) lang of
                  Inl err \<Rightarrow> Inl err
                | Inr findings \<Rightarrow>
                    (let lang' = py_or lang (guess_lang_from_findings U findings)
                     in if findings \<noteq> []
                        then acked (reply_with_fix_cr U e r findings lang')
                        else acked (reply_fixed_cr U r (u ''shut up and provide the error''))))
          else triage_cr U e r (if free_text \<noteq> [] then free_text else text))))"

definition has_key :: "pyval \<Rightarrow> ustr \<Rightarrow> bool" where
  "has_key data k = (case data of PDict kvs \<Rightarrow> map_of kvs k \<noteq> None | _ \<Rightarrow> False)"

text \<open>
  \<open>on_chat_or_review\<close>: the message's content in, what is sent out, or the exception that
  leaves the handler.
\<close>

definition on_chat_or_review_cr :: "unicode \<Rightarrow> env \<Rightarrow> rnd \<Rightarrow> content list \<Rightarrow> error + sent list" where
  "on_chat_or_review_cr U e r content =
     (let text = strip (collect_text content)
      in if text = [] then Inr []
         else if looks_like_success U text then acked (reply_fixed_cr U r (u ''GG KING''))
         else if re_search U PRAISE_PAT text \<noteq> None
         then acked (reply_fixed_cr U r (u ''u be glazing me brahh''))
         else (case json_loads e text of
                 None \<Rightarrow> triage_cr U e r text
               | Some data \<Rightarrow>
                   if has_key data (u ''log_tail'') \<or> has_key data (u ''text'')
                   then envelope_cr U e r data text
                   else triage_cr U e r text))"

section \<open>Reply assembler of \<^verbatim>\<open>agent/agent.py\<close>\<close>

text \<open>
  This handler greets a sender once, when a session starts, before anything else; so its
  result is the senders greeted so far, what was sent, and the exception that left the
  handler, if one did.
\<close>

definition send_two_lines :: "ustr \<Rightarrow> ustr \<Rightarrow> sent list" where
  "send_two_lines line1 line2 = [ChatMessage [line1], ChatMessage [line2]]"

definition reply_fixed_ag :: "unicode \<Rightarrow> rnd \<Rightarrow> ustr \<Rightarrow> error + sent list" where
  "reply_fixed_ag U r line1 =
     (case brainrot_quip_raw_ag U r PNone False of
        Inl err \<Rightarrow> Inl err
      | Inr line2 \<Rightarrow> Inr (send_two_lines line1 line2))"

definition reply_with_fix_ag :: "unicode \<Rightarrow> env \<Rightarrow> rnd \<Rightarrow> finding list \<Rightarrow> pyval \<Rightarrow> error + sent list" where
  "reply_with_fix_ag U e r findings lang =
     (let line1 = concise_fix_or_summary_ag U e findings lang;
          basic = (case findings of [] \<Rightarrow> False | f0 # _ \<Rightarrow> f_file f0 = u ''(unknown)'')
      in case brainrot_quip_raw_ag U r lang basic of
           Inl err \<Rightarrow> Inl err
         | Inr line2 \<Rightarrow> Inr (send_two_lines line1 line2))"

definition turn_ag :: "unicode \<Rightarrow> env \<Rightarrow> rnd \<Rightarrow> ustr \<Rightarrow> error + sent list" where
  "turn_ag U e r text =
     (if re_search U PRAISE_PAT text \<noteq> None
      then acked (reply_fixed_ag U r (u ''u be glazing me brahh''))
      else (let data = json_loads e text
            in case data of
                 Some (PDict kvs) \<Rightarrow>
                   if has_key (PDict kvs) (u ''log_tail'')
                   then (case context_lang (PDict kvs) of
                           Inl err \<Rightarrow> Inl err
                         | Inr lang \<Rightarrow>
                        (case py_get (PDict kvs) (u ''log_tail'') of
                           Inl err \<Rightarrow> Inl err
                         | Inr v \<Rightarrow>
                        (case extract_findings_ag U (py_or v (PStr [])) lang of
                           Inl err \<Rightarrow> Inl err
                         | Inr findings \<Rightarrow>
                             (let lang' = py_or lang (guess_lang_from_findings U findings)
                              in if findings \<noteq> []
                                 then acked (reply_with_fix_ag U e r findings lang')
                                 else acked (reply_fixed_ag U r GREETING_LINE)))))
                   else (case extract_findings_ag U (PStr text) PNone of
                           Inl err \<Rightarrow> Inl err
                         | Inr findings \<Rightarrow>
                             if findings \<noteq> []
                             then acked (reply_with_fix_ag U e r findings
                                           (guess_lang_from_findings U findings))
                             else acked (reply_fixed_ag U r GREETING_LINE))
               | _ \<Rightarrow>
                   (case extract_findings_ag U (PStr text) PNone of
                      Inl err \<Rightarrow> Inl err
                    | Inr findings \<Rightarrow>
                        if findings \<noteq> []
                        then acked (reply_with_fix_ag U e r findings
                                      (guess_lang_from_findings U findings))
                        else acked (reply_fixed_ag U r GREETING_LINE))))"

definition session_greeting :: ustr where
  "session_greeting = u ''Hey! I'' @ [8217] @ u ''m **Chaos Reviewer** '' @ [8212] @ u '' paste an error or ask for a quick code note.''"

definition on_chat_or_review_ag ::
  "unicode \<Rightarrow> env \<Rightarrow> rnd \<Rightarrow> ustr set \<Rightarrow> ustr \<Rightarrow> content list \<Rightarrow> ustr set \<times> sent list \<times> error option" where
  "on_chat_or_review_ag U e r GREETED_MEMORY sender content =
     (let is_start = (StartSessionContent \<in> set content);
          greet = (is_start \<and> sender \<notin> GREETED_MEMORY);
          memory' = (if greet then insert sender GREETED_MEMORY else GREETED_MEMORY);
          greeting = (if greet then [ChatMessage [session_greeting]] else []);
          text = strip (collect_text content)
      in if text = [] then (memory', greeting, None)
         else (case turn_ag U e r text of
                 Inl err \<Rightarrow> (memory', greeting, Some err)
               | Inr ms \<Rightarrow> (memory', greeting @ ms, None)))"

section \<open>Polling bridge\<close>


record payload =
  p_ts :: int
  p_lines :: "ustr list"

datatype outcome = Nothing | Raised error | Put payload bool








section \<open>Inputs the claims are tried on\<close>

text \<open>
  A traceback block, \<^verbatim>\<open>File "b.py", line 2, in f\<close> followed by \<^verbatim>\<open>ValueError: bad\<close>, and the
  same block after the compiler line \<^verbatim>\<open>a.c:1: error: x\<close>.
\<close>

definition tb_block :: ustr where
  "tb_block = u ''File '' @ [34] @ u ''b.py'' @ [34] @ u '', line 2, in f'' @ [10] @ u ''ValueError: bad''"

definition mixed_log :: ustr where
  "mixed_log = u ''a.c:1: error: x'' @ [10] @ tb_block"

text \<open>No oracle answers; and the primary oracle answers every request with one text.\<close>

definition no_llm :: env where
  "no_llm = \<lparr>ASI1_API_KEY = [], LLM_OK = False, asi_chat_once = (\<lambda>req. None),
             free_llm_chat_once = (\<lambda>req. None), json_loads = (\<lambda>t. None)\<rparr>"

definition llm_says :: "ustr \<Rightarrow> env" where
  "llm_says reply = \<lparr>ASI1_API_KEY = u ''key'', LLM_OK = True, asi_chat_once = (\<lambda>req. Some reply),
             free_llm_chat_once = (\<lambda>req. None), json_loads = (\<lambda>t. None)\<rparr>"

definition draw0 :: rnd where
  "draw0 = \<lparr>random_below_quarter = False, choice_draw = 0\<rparr>"

text \<open>Two findings whose message is what Python prints for a missing module.\<close>

definition missing_foo :: finding where
  "missing_foo = \<lparr>f_file = u ''a.py'', f_line = 3, f_msg = u ''ModuleNotFoundError: No module named '' @ [39] @ u ''foo'' @ [39]\<rparr>"

definition missing_linker :: finding where
  "missing_linker = \<lparr>f_file = u ''a.py'', f_line = 3, f_msg = u ''ModuleNotFoundError: No module named '' @ [39] @ u ''linker'' @ [39]\<rparr>"

definition compile_error :: finding where
  "compile_error = \<lparr>f_file = u ''a.c'', f_line = 1, f_msg = u ''x''\<rparr>"

text \<open>The chat text \<^verbatim>\<open>{"log_tail": 5}\<close>, and \<open>json.loads\<close> on it.\<close>

definition number_envelope :: ustr where
  "number_envelope = [123, 34] @ u ''log_tail'' @ [34] @ u '': 5'' @ [125]"

definition number_data :: pyval where
  "number_data = PDict [(u ''log_tail'', PInt 5)]"

definition loads_number_envelope :: env where
  "loads_number_envelope = no_llm \<lparr>json_loads :=
     (\<lambda>t. if t = number_envelope then Some number_data else None)\<rparr>"





section \<open>Evaluation\<close>

text \<open>Rewrite rules with which the simplifier runs the definitions on a given text.\<close>

lemma u_simps: "u [] = []" "u (c # cs) = of_char c # u cs"
  by (simp_all add: u_def)

lemmas run_regex = u_simps lit_def prev_after_def at_word_boundary_def
  is_space_def is_decimal_def digit_value_def is_word_def Let_def

lemmas run_extract = run_regex finditer_def mk_match_def finding_of_match_def groupdict_get_def
  strip_def collapse_ws_def re_sub_def isdigit_def is_digit_def int_of_str_def int_blank_def
  valid_int_body_def digits_value_def int_max_str_digits_def py_or_def
  pat_gcc_cr_def pat_tb_cr_def pat_tsc_def pat_gcc_ag_def pat_tb_ag_def tb_tail_def
  FILE_LINE_PATTERNS_cr_def FILE_LINE_PATTERNS_ag_def
  extract_findings_cr_def extract_findings_ag_def extract_text_def family_findings_def
  splitlines_def last_n_def lower_def lower_cp_def startswith_def is_linebreak_def

section \<open>The scan in closed form\<close>

text \<open>
  When \<open>int\<close> accepts the line number of every match of a family, the inner loop adds the
  family's findings to those collected so far and stops at five.
\<close>

lemma findings_of_matches_Cons:
  assumes "findings_of_matches U (m # ms) = Inr fs"
  obtains r fs' where "finding_of_match U m = Inr r" and "findings_of_matches U ms = Inr fs'"
    and "fs = (case r of None \<Rightarrow> fs' | Some f \<Rightarrow> f # fs')"
  using assms by (auto split: sum.splits)

lemma scan_matches_take:
  "findings_of_matches U ms = Inr fs \<Longrightarrow> length acc < 5 \<Longrightarrow>
   scan_matches U ms acc = Inr (take 5 (acc @ fs))"
proof (induction ms arbitrary: acc fs)
  case Nil
  then show ?case by simp
next
  case (Cons m ms)
  from Cons.prems(1) obtain r fs' where
    r: "finding_of_match U m = Inr r" and fs': "findings_of_matches U ms = Inr fs'"
    and fs: "fs = (case r of None \<Rightarrow> fs' | Some f \<Rightarrow> f # fs')"
    by (rule findings_of_matches_Cons)
  show ?case
  proof (cases r)
    case None
    with Cons.IH [OF fs' Cons.prems(2)] Cons.prems(2) r fs show ?thesis by simp
  next
    case (Some f)
    show ?thesis
    proof (cases "length acc = 4")
      case True
      with Some r fs show ?thesis by simp
    next
      case False
      with Cons.prems(2) have "length (acc @ [f]) < 5" by simp
      from Cons.IH [OF fs' this] Some False Cons.prems(2) r fs show ?thesis by simp
    qed
  qed
qed

lemma scan_patterns_take:
  "list_all2 (\<lambda>p fs. family_findings U p t = Inr fs) pats fss \<Longrightarrow> length acc < 5 \<Longrightarrow>
   scan_patterns U pats t acc = Inr (take 5 (acc @ concat fss))"
proof (induction pats fss arbitrary: acc rule: list_all2_induct)
  case Nil
  then show ?case by simp
next
  case (Cons p pats F fss)
  have sm: "scan_matches U (finditer U p t) acc = Inr (take 5 (acc @ F))"
    using Cons.hyps(1) Cons.prems by (simp add: family_findings_def scan_matches_take)
  show ?case
  proof (cases "5 \<le> length (acc @ F)")
    case True
    have "take 5 (acc @ concat (F # fss)) = take 5 ((acc @ F) @ concat fss)" by simp
    also have "\<dots> = take 5 (acc @ F)" using True by (simp del: append_assoc)
    finally have rhs: "take 5 (acc @ concat (F # fss)) = take 5 (acc @ F)" .
    have len: "5 \<le> length (take 5 (acc @ F))" using True by simp
    have "scan_patterns U (p # pats) t acc = Inr (take 5 (acc @ F))"
      by (simp only: scan_patterns.simps sm sum.case len if_True)
    then show ?thesis by (simp only: rhs)
  next
    case False
    then have lt: "length (acc @ F) < 5" by simp
    then have "scan_matches U (finditer U p t) acc = Inr (acc @ F)" using sm by simp
    then show ?thesis using Cons.IH [OF lt] lt by simp
  qed
qed

lemma scan_three:
  assumes "family_findings U p1 t = Inr a" and "family_findings U p2 t = Inr b"
    and "family_findings U p3 t = Inr c"
  shows "scan_patterns U [p1, p2, p3] t [] = Inr (take 5 (a @ b @ c))"
  using scan_patterns_take [of U t "[p1, p2, p3]" "[a, b, c]" "[]"] assms by simp

lemma scan_two:
  assumes "family_findings U p1 t = Inr a" and "family_findings U p2 t = Inr b"
  shows "scan_patterns U [p1, p2] t [] = Inr (take 5 (a @ b))"
  using scan_patterns_take [of U t "[p1, p2]" "[a, b]" "[]"] assms by simp

section \<open>What the scan keeps\<close>

lemma digits_value_nonneg_aux:
  "0 \<le> a \<Longrightarrow>
   0 \<le> foldl (\<lambda>a c. 10 * a + int (case digit_value U c of None \<Rightarrow> 0 | Some d \<Rightarrow> d)) a s"
  by (induction s arbitrary: a) auto

lemma digits_value_nonneg: "0 \<le> digits_value U s"
  by (simp add: digits_value_def digits_value_nonneg_aux)

lemma not_digit_minus: "\<not> is_digit U 45"
  by (simp add: is_digit_def is_decimal_def digit_value_def)

lemma hd_trimmed_in_set:
  assumes "rev (dropWhile P (rev (dropWhile P s))) \<noteq> []"
  shows "hd (rev (dropWhile P (rev (dropWhile P s)))) \<in> set s"
proof -
  let ?t = "rev (dropWhile P (rev (dropWhile P s)))"
  have "set ?t \<subseteq> set s"
    by (auto dest!: set_dropWhileD)
  with assms show ?thesis using hd_in_set by blast
qed

lemma int_of_digit_string_nonneg:
  assumes "isdigit U s" and "int_of_str U s = Inr n"
  shows "0 \<le> n"
proof -
  let ?t = "rev (dropWhile int_blank (rev (dropWhile int_blank s)))"
  have "hd ?t \<noteq> 45" if "?t \<noteq> []"
  proof -
    from that have "hd ?t \<in> set s" by (rule hd_trimmed_in_set)
    with assms(1) have "is_digit U (hd ?t)" by (simp add: isdigit_def list_all_iff)
    then show ?thesis using not_digit_minus by metis
  qed
  then have "\<not> (?t \<noteq> [] \<and> hd ?t = 45)" by blast
  with assms(2) show ?thesis
    by (auto simp: int_of_str_def Let_def digits_value_nonneg split: if_splits)
qed

lemma finding_of_match_wf:
  assumes "finding_of_match U m = Inr (Some f)"
  shows "f_file f \<noteq> [] \<and> 1 \<le> f_line f"
proof -
  from assms obtain n where
    n: "(case groupdict_get m ''line'' of None \<Rightarrow> Inr 0
         | Some s \<Rightarrow> if s \<noteq> [] \<and> isdigit U s then int_of_str U s else Inr 0) = Inr n"
    and f: "f_file f \<noteq> []" "f_line f = n" "n \<noteq> 0"
    by (auto simp: finding_of_match_def Let_def split: sum.splits if_splits)
  from n have "0 \<le> n"
    by (auto simp: int_of_digit_string_nonneg split: option.splits if_splits)
  with f show ?thesis by simp
qed

lemma scan_matches_keeps:
  "length acc < 5 \<Longrightarrow> scan_matches U ms acc = Inr r \<Longrightarrow>
   length r \<le> 5 \<and> (\<forall>f \<in> set r. f \<in> set acc \<or> (f_file f \<noteq> [] \<and> 1 \<le> f_line f))"
proof (induction ms arbitrary: acc)
  case Nil
  then show ?case by auto
next
  case (Cons m ms)
  from Cons.prems(2) obtain x where x: "finding_of_match U m = Inr x"
    by (auto split: sum.splits)
  show ?case
  proof (cases x)
    case None
    with Cons x show ?thesis by (simp add: Let_def split: if_splits)
  next
    case (Some f)
    then have wf: "f_file f \<noteq> [] \<and> 1 \<le> f_line f"
      using x finding_of_match_wf by blast
    show ?thesis
    proof (cases "length acc = 4")
      case True
      with Cons.prems x Some wf show ?thesis by auto
    next
      case False
      with Cons.prems(1) have lt: "length (acc @ [f]) < 5" by simp
      from Cons.prems(2) x Some False Cons.prems(1)
      have "scan_matches U ms (acc @ [f]) = Inr r" by simp
      from Cons.IH [OF lt this] wf show ?thesis by auto
    qed
  qed
qed

lemma scan_patterns_keeps:
  "length acc < 5 \<Longrightarrow> scan_patterns U pats t acc = Inr r \<Longrightarrow>
   length r \<le> 5 \<and> (\<forall>f \<in> set r. f \<in> set acc \<or> (f_file f \<noteq> [] \<and> 1 \<le> f_line f))"
proof (induction pats arbitrary: acc)
  case Nil
  then show ?case by auto
next
  case (Cons p pats)
  from Cons.prems(2) obtain acc' where
    acc': "scan_matches U (finditer U p t) acc = Inr acc'"
    by (auto split: sum.splits)
  from scan_matches_keeps [OF Cons.prems(1) acc']
  have k: "length acc' \<le> 5"
    "\<forall>f \<in> set acc'. f \<in> set acc \<or> (f_file f \<noteq> [] \<and> 1 \<le> f_line f)" by simp_all
  show ?case
  proof (cases "5 \<le> length acc'")
    case True
    with Cons.prems(2) acc' have "r = acc'" by simp
    with k show ?thesis by simp
  next
    case False
    then have lt: "length acc' < 5" by simp
    from Cons.prems(2) acc' False have "scan_patterns U pats t acc' = Inr r" by simp
    from Cons.IH [OF lt this] k(2) show ?thesis by blast
  qed
qed

lemma scan_patterns_wf:
  assumes "scan_patterns U pats t [] = Inr r"
  shows "length r \<le> 5" and "\<forall>f \<in> set r. f_file f \<noteq> [] \<and> 1 \<le> f_line f"
  using scan_patterns_keeps [of "[]" U pats t r] assms by simp_all

lemma keyword_scan_length:
  "length acc < 3 \<Longrightarrow> length (keyword_scan U lns acc) \<le> 3"
  by (induction lns arbitrary: acc) (auto simp: Let_def)

lemma keyword_scan_unknown:
  "list_all unknown_finding acc \<Longrightarrow> list_all unknown_finding (keyword_scan U lns acc)"
  by (induction lns arbitrary: acc) (auto simp: Let_def unknown_finding_def)

lemma unknown_finding_wf: "unknown_finding f \<Longrightarrow> f_file f \<noteq> [] \<and> 1 \<le> f_line f"
  by (simp add: unknown_finding_def u_simps)

lemma extract_text_cases:
  assumes "extract_text U pats t = Inr fs"
  obtains "scan_patterns U pats t [] = Inr []"
      and "fs = keyword_scan U (last_n 300 (splitlines t)) []"
  | "scan_patterns U pats t [] = Inr fs" and "fs \<noteq> []"
  using assms by (auto simp: extract_text_def split: sum.splits if_splits)

lemma extract_text_wf:
  assumes "extract_text U pats t = Inr fs" and "f \<in> set fs"
  shows "f_file f \<noteq> [] \<and> 1 \<le> f_line f"
  using assms(1)
proof (cases rule: extract_text_cases)
  case 1
  have "list_all unknown_finding (keyword_scan U (last_n 300 (splitlines t)) [])"
    by (rule keyword_scan_unknown) simp
  with assms(2) 1 have "unknown_finding f" by (simp add: list_all_iff)
  then show ?thesis by (rule unknown_finding_wf)
next
  case 2
  with assms(2) show ?thesis using scan_patterns_wf(2) by blast
qed

lemma extract_text_length:
  assumes "extract_text U pats t = Inr fs"
  shows "length fs \<le> 5" and "scan_patterns U pats t [] = Inr [] \<Longrightarrow> length fs \<le> 3"
proof -
  have k: "length (keyword_scan U (last_n 300 (splitlines t)) []) \<le> 3"
    by (rule keyword_scan_length) simp
  show "length fs \<le> 5"
    using assms
  proof (cases rule: extract_text_cases)
    case 1
    with k show ?thesis by simp
  next
    case 2
    then show ?thesis using scan_patterns_wf(1) by blast
  qed
  show "scan_patterns U pats t [] = Inr [] \<Longrightarrow> length fs \<le> 3"
    using assms k by (simp add: extract_text_def)
qed

lemma extract_cr_text:
  "extract_findings_cr U (PStr t) h = extract_text U FILE_LINE_PATTERNS_cr t"
  by (cases "t = []") (simp_all add: extract_findings_cr_def py_or_def)

lemma extract_ag_text:
  "extract_findings_ag U (PStr t) h = extract_text U FILE_LINE_PATTERNS_ag t"
  by (simp add: extract_findings_ag_def)

lemma extract_text_structured:
  "scan_patterns U pats t [] = Inr (take 5 fs) \<Longrightarrow> fs \<noteq> [] \<Longrightarrow>
   extract_text U pats t = Inr (take 5 fs)"
  by (cases fs) (simp_all add: extract_text_def)

section \<open>The example logs, evaluated\<close>

lemma mixed_log_gcc_cr:
  "family_findings U pat_gcc_cr mixed_log =
     Inr [\<lparr>f_file = u ''a.c'', f_line = 1, f_msg = u ''x''\<rparr>]"
  by (simp add: mixed_log_def tb_block_def run_extract)

lemma mixed_log_tb_cr:
  "family_findings U pat_tb_cr mixed_log =
     Inr [\<lparr>f_file = u ''b.py'', f_line = 2, f_msg = u ''ValueError: bad''\<rparr>]"
  by (simp add: mixed_log_def tb_block_def run_extract)

lemma mixed_log_tsc:
  "family_findings U pat_tsc mixed_log = Inr []"
  by (simp add: mixed_log_def tb_block_def run_extract)

lemma tb_block_gcc_ag: "family_findings U pat_gcc_ag tb_block = Inr []"
  by (simp add: tb_block_def run_extract)

lemma tb_block_tsc: "family_findings U pat_tsc tb_block = Inr []"
  by (simp add: tb_block_def run_extract)

lemma tb_block_keywords:
  "keyword_scan U (last_n 300 (splitlines tb_block)) [] =
     [\<lparr>f_file = u ''(unknown)'', f_line = 1, f_msg = u ''ValueError: bad''\<rparr>]"
  by (simp add: tb_block_def run_extract)

lemma empty_text_cr: "extract_text U FILE_LINE_PATTERNS_cr [] = Inr []"
  by (simp add: run_extract)

lemma empty_text_ag: "extract_text U FILE_LINE_PATTERNS_ag [] = Inr []"
  by (simp add: run_extract)

lemma mixed_log_extract_cr:
  "extract_findings_cr U (PStr mixed_log) h =
     Inr [\<lparr>f_file = u ''a.c'', f_line = 1, f_msg = u ''x''\<rparr>,
          \<lparr>f_file = u ''b.py'', f_line = 2, f_msg = u ''ValueError: bad''\<rparr>]"
proof -
  have "scan_patterns U FILE_LINE_PATTERNS_cr mixed_log [] =
          Inr (take 5 ([\<lparr>f_file = u ''a.c'', f_line = 1, f_msg = u ''x''\<rparr>]
                 @ [\<lparr>f_file = u ''b.py'', f_line = 2, f_msg = u ''ValueError: bad''\<rparr>] @ []))"
    unfolding FILE_LINE_PATTERNS_cr_def
    by (rule scan_three) (rule mixed_log_gcc_cr mixed_log_tb_cr mixed_log_tsc)+
  then show ?thesis by (simp add: extract_cr_text extract_text_def)
qed

section \<open>Claims about the finding extractor\<close>

text \<open>
  C1, as stated: on a text where the compiler-style family and a later family both have
  matches, only the first family's findings are returned. On \<open>mixed_log\<close> the compiler-style
  family yields one finding and the traceback family another, and the extractor of
  \<^verbatim>\<open>Chaos Reviewer/Agent.py\<close> returns both.
\<close>

theorem C1_mixed_log_merges_families:
  "\<forall>U. family_findings U pat_gcc_cr mixed_log =
          Inr [\<lparr>f_file = u ''a.c'', f_line = 1, f_msg = u ''x''\<rparr>] \<and>
        family_findings U pat_tb_cr mixed_log =
          Inr [\<lparr>f_file = u ''b.py'', f_line = 2, f_msg = u ''ValueError: bad''\<rparr>] \<and>
        extract_findings_cr U (PStr mixed_log) PNone =
          Inr [\<lparr>f_file = u ''a.c'', f_line = 1, f_msg = u ''x''\<rparr>,
               \<lparr>f_file = u ''b.py'', f_line = 2, f_msg = u ''ValueError: bad''\<rparr>] \<and>
        extract_findings_cr U (PStr mixed_log) PNone \<noteq> family_findings U pat_gcc_cr mixed_log"
  by (simp add: mixed_log_extract_cr mixed_log_gcc_cr mixed_log_tb_cr)

text \<open>
  C1, amended: when \<open>int\<close> accepts the line number of every match of the three families (none
  has more than 4300 digits) and some family yields a finding, the extractor returns the
  findings of all three families, in the order compiler-style, traceback, type-checker, cut
  to the first five. So the first matching family's findings come first, and later
  families' findings follow them while fewer than five have been collected. (Both
  variants.)
\<close>

theorem C1_families_concatenated_up_to_five:
  "(family_findings U pat_gcc_cr t = Inr a \<and> family_findings U pat_tb_cr t = Inr b \<and>
    family_findings U pat_tsc t = Inr c \<and> a @ b @ c \<noteq> []
      \<longrightarrow> extract_findings_cr U (PStr t) h = Inr (take 5 (a @ b @ c))) \<and>
   (family_findings U pat_gcc_ag t = Inr a' \<and> family_findings U pat_tb_ag t = Inr b' \<and>
    family_findings U pat_tsc t = Inr c' \<and> a' @ b' @ c' \<noteq> []
      \<longrightarrow> extract_findings_ag U (PStr t) h = Inr (take 5 (a' @ b' @ c')))"
proof (intro conjI impI)
  assume "family_findings U pat_gcc_cr t = Inr a \<and> family_findings U pat_tb_cr t = Inr b \<and>
    family_findings U pat_tsc t = Inr c \<and> a @ b @ c \<noteq> []"
  then have "scan_patterns U FILE_LINE_PATTERNS_cr t [] = Inr (take 5 (a @ b @ c))"
    and "a @ b @ c \<noteq> []"
    unfolding FILE_LINE_PATTERNS_cr_def by (blast intro: scan_three)+
  then show "extract_findings_cr U (PStr t) h = Inr (take 5 (a @ b @ c))"
    unfolding extract_cr_text by (rule extract_text_structured)
next
  assume "family_findings U pat_gcc_ag t = Inr a' \<and> family_findings U pat_tb_ag t = Inr b' \<and>
    family_findings U pat_tsc t = Inr c' \<and> a' @ b' @ c' \<noteq> []"
  then have "scan_patterns U FILE_LINE_PATTERNS_ag t [] = Inr (take 5 (a' @ b' @ c'))"
    and "a' @ b' @ c' \<noteq> []"
    unfolding FILE_LINE_PATTERNS_ag_def by (blast intro: scan_three)+
  then show "extract_findings_ag U (PStr t) h = Inr (take 5 (a' @ b' @ c'))"
    unfolding extract_ag_text by (rule extract_text_structured)
qed

theorem C1_families_concatenated_witness:
  "\<forall>U. family_findings U pat_gcc_cr mixed_log =
          Inr [\<lparr>f_file = u ''a.c'', f_line = 1, f_msg = u ''x''\<rparr>] \<and>
        family_findings U pat_tb_cr mixed_log =
          Inr [\<lparr>f_file = u ''b.py'', f_line = 2, f_msg = u ''ValueError: bad''\<rparr>] \<and>
        family_findings U pat_tsc mixed_log = Inr [] \<and>
        extract_findings_cr U (PStr mixed_log) PNone =
          Inr (take 5 ([\<lparr>f_file = u ''a.c'', f_line = 1, f_msg = u ''x''\<rparr>] @
                       [\<lparr>f_file = u ''b.py'', f_line = 2, f_msg = u ''ValueError: bad''\<rparr>] @ []))"
proof (intro allI)
  fix U
  let ?a = "[\<lparr>f_file = u ''a.c'', f_line = 1, f_msg = u ''x''\<rparr>]"
  let ?b = "[\<lparr>f_file = u ''b.py'', f_line = 2, f_msg = u ''ValueError: bad''\<rparr>]"
  have f: "family_findings U pat_gcc_cr mixed_log = Inr ?a"
    "family_findings U pat_tb_cr mixed_log = Inr ?b"
    "family_findings U pat_tsc mixed_log = Inr []"
    by (rule mixed_log_gcc_cr mixed_log_tb_cr mixed_log_tsc)+
  have ne: "?a @ ?b @ [] \<noteq> []" by simp
  from C1_families_concatenated_up_to_five [of U mixed_log ?a ?b "[]" PNone] f ne
  have "extract_findings_cr U (PStr mixed_log) PNone = Inr (take 5 (?a @ ?b @ []))"
    by blast
  with f show "family_findings U pat_gcc_cr mixed_log = Inr ?a \<and>
        family_findings U pat_tb_cr mixed_log = Inr ?b \<and>
        family_findings U pat_tsc mixed_log = Inr [] \<and>
        extract_findings_cr U (PStr mixed_log) PNone = Inr (take 5 (?a @ ?b @ []))"
    by (simp only: simp_thms)
qed

text \<open>
  C2: every finding the extractor returns has a non-empty file and a line of at least 1;
  there are at most five findings, and at most three when no structured pattern gave a
  finding and the keyword loop was used. (Both variants.)
\<close>

theorem C2_findings_wellformed_and_bounded:
  "(extract_findings_cr U (PStr t) h = Inr fs \<longrightarrow>
      (\<forall>f \<in> set fs. f_file f \<noteq> [] \<and> 1 \<le> f_line f) \<and> length fs \<le> 5 \<and>
      (scan_patterns U FILE_LINE_PATTERNS_cr t [] = Inr [] \<longrightarrow> length fs \<le> 3)) \<and>
   (extract_findings_ag U (PStr t) h = Inr fs \<longrightarrow>
      (\<forall>f \<in> set fs. f_file f \<noteq> [] \<and> 1 \<le> f_line f) \<and> length fs \<le> 5 \<and>
      (scan_patterns U FILE_LINE_PATTERNS_ag t [] = Inr [] \<longrightarrow> length fs \<le> 3))"
  unfolding extract_cr_text extract_ag_text
  using extract_text_wf extract_text_length by blast

theorem C2_findings_wellformed_witness:
  "\<forall>U. extract_findings_cr U (PStr mixed_log) PNone =
          Inr [\<lparr>f_file = u ''a.c'', f_line = 1, f_msg = u ''x''\<rparr>,
               \<lparr>f_file = u ''b.py'', f_line = 2, f_msg = u ''ValueError: bad''\<rparr>] \<and>
        f_file \<lparr>f_file = u ''a.c'', f_line = 1, f_msg = u ''x''\<rparr> \<noteq> [] \<and>
        1 \<le> f_line \<lparr>f_file = u ''a.c'', f_line = 1, f_msg = u ''x''\<rparr> \<and>
        f_file \<lparr>f_file = u ''b.py'', f_line = 2, f_msg = u ''ValueError: bad''\<rparr> \<noteq> [] \<and>
        1 \<le> f_line \<lparr>f_file = u ''b.py'', f_line = 2, f_msg = u ''ValueError: bad''\<rparr> \<and>
        length [\<lparr>f_file = u ''a.c'', f_line = 1, f_msg = u ''x''\<rparr>,
                \<lparr>f_file = u ''b.py'', f_line = 2, f_msg = u ''ValueError: bad''\<rparr>] \<le> 5"
proof (intro allI)
  fix U
  let ?fs = "[\<lparr>f_file = u ''a.c'', f_line = 1, f_msg = u ''x''\<rparr>,
              \<lparr>f_file = u ''b.py'', f_line = 2, f_msg = u ''ValueError: bad''\<rparr>]"
  have e: "extract_findings_cr U (PStr mixed_log) PNone = Inr ?fs"
    by (rule mixed_log_extract_cr)
  from C2_findings_wellformed_and_bounded [of U mixed_log PNone ?fs] e
  have "(\<forall>f \<in> set ?fs. f_file f \<noteq> [] \<and> 1 \<le> f_line f) \<and> length ?fs \<le> 5"
    by blast
  with e show "extract_findings_cr U (PStr mixed_log) PNone = Inr ?fs \<and>
        f_file \<lparr>f_file = u ''a.c'', f_line = 1, f_msg = u ''x''\<rparr> \<noteq> [] \<and>
        1 \<le> f_line \<lparr>f_file = u ''a.c'', f_line = 1, f_msg = u ''x''\<rparr> \<and>
        f_file \<lparr>f_file = u ''b.py'', f_line = 2, f_msg = u ''ValueError: bad''\<rparr> \<noteq> [] \<and>
        1 \<le> f_line \<lparr>f_file = u ''b.py'', f_line = 2, f_msg = u ''ValueError: bad''\<rparr> \<and>
        length ?fs \<le> 5"
    by simp
qed

text \<open>
  C3, as stated: the extractor returns an empty sequence on \<open>None\<close> without raising. The
  extractor of \<^verbatim>\<open>agent/agent.py\<close> hands \<open>None\<close> to \<open>finditer\<close>, which raises \<open>TypeError\<close>.
\<close>

theorem C3_agent_extract_raises_on_None:
  "\<forall>U. extract_findings_ag U PNone PNone = Inl TypeError"
  by (simp add: extract_findings_ag_def)

text \<open>
  C3, amended: on the empty string both variants return an empty sequence, and on \<open>None\<close>
  the extractor of \<^verbatim>\<open>Chaos Reviewer/Agent.py\<close>, which scans \<open>log_text or ""\<close>, does.
\<close>

theorem C3_empty_input_gives_no_findings:
  "extract_findings_cr U (PStr []) h = Inr [] \<and> extract_findings_cr U PNone h = Inr [] \<and>
   extract_findings_ag U (PStr []) h = Inr []"
  by (simp add: extract_findings_cr_def extract_findings_ag_def py_or_def
      empty_text_cr empty_text_ag)

theorem C3_empty_input_witness:
  "\<forall>U. extract_findings_cr U (PStr []) (PStr (u ''python'')) = Inr [] \<and>
        extract_findings_cr U PNone (PStr (u ''python'')) = Inr [] \<and>
        extract_findings_ag U (PStr []) (PStr (u ''python'')) = Inr []"
  using C3_empty_input_gives_no_findings [of _ "PStr (u ''python'')"] by blast

text \<open>
  A match carries the group names of its pattern, and a pattern with no group named \<open>file\<close>
  or \<open>line\<close> gives the loop body nothing to keep and nothing to convert.
\<close>

lemma names_finditer_from:
  "m \<in> set (finditer_from U r p s) \<Longrightarrow> names m = groupindex r"
proof (induction U r p s rule: finditer_from.induct)
  case (1 U r p s)
  show ?case
  proof (cases "mtch U [R r] p s []")
    case None
    with 1 show ?thesis
      by (cases s) (auto simp: finditer_from.simps [of U r p s])
  next
    case (Some res)
    obtain cs rest where res: "res = (cs, rest)" by (cases res)
    show ?thesis
    proof (cases "length s - length rest = 0")
      case True
      with 1 Some res show ?thesis
        by (cases s) (auto simp: finditer_from.simps [of U r p s] mk_match_def)
    next
      case False
      with "1.prems" Some res "1.IH"(3) [OF Some res [symmetric] refl False] show ?thesis
        by (auto simp: finditer_from.simps [of U r p s] mk_match_def Let_def)
    qed
  qed
qed

lemma groupindex_pat_tb_ag:
  "map_of (groupindex pat_tb_ag) ''file'' = None"
  "map_of (groupindex pat_tb_ag) ''line'' = None"
  by (simp_all add: pat_tb_ag_def tb_tail_def lit_def)

lemma findings_of_matches_none:
  "(\<And>m. m \<in> set ms \<Longrightarrow> finding_of_match U m = Inr None) \<Longrightarrow> findings_of_matches U ms = Inr []"
  by (induction ms) simp_all

lemma unnamed_groups_no_finding:
  assumes "map_of (groupindex r) ''file'' = None" and "map_of (groupindex r) ''line'' = None"
  shows "family_findings U r t = Inr []"
proof -
  have "finding_of_match U m = Inr None" if "m \<in> set (finditer U r t)" for m
  proof -
    from that have "names m = groupindex r"
      by (simp add: finditer_def names_finditer_from)
    with assms have "groupdict_get m ''file'' = None" "groupdict_get m ''line'' = None"
      by (simp_all add: groupdict_get_def)
    then show ?thesis
      by (simp add: finding_of_match_def strip_def Let_def)
  qed
  then show ?thesis
    unfolding family_findings_def by (rule findings_of_matches_none)
qed

lemma scan_without_unnamed:
  assumes "family_findings U q t = Inr []"
  shows "scan_patterns U [p1, q, p3] t [] = scan_patterns U [p1, p3] t []"
proof (cases "scan_matches U (finditer U p1 t) []")
  case (Inl err)
  then show ?thesis by simp
next
  case (Inr acc)
  show ?thesis
  proof (cases "5 \<le> length acc")
    case True
    with Inr show ?thesis by simp
  next
    case False
    then have "length acc < 5" by simp
    with assms have "scan_matches U (finditer U q t) acc = Inr acc"
      by (simp add: family_findings_def scan_matches_take)
    with Inr False show ?thesis by simp
  qed
qed

text \<open>
  C10: in \<^verbatim>\<open>agent/agent.py\<close> the traceback family yields no finding on any text, since its
  pattern has no group named \<open>file\<close> (nor one named \<open>line\<close>, so that \<open>int\<close> is not called on
  its matches); the structured scan is that of the other two families; and a text on which
  those two yield nothing is answered by the keyword loop alone, each of whose findings has
  the file \<open>(unknown)\<close> and the line 1.
\<close>

theorem C10_agent_traceback_family_never_contributes:
  "family_findings U pat_tb_ag t = Inr [] \<and>
   scan_patterns U FILE_LINE_PATTERNS_ag t [] = scan_patterns U [pat_gcc_ag, pat_tsc] t [] \<and>
   (family_findings U pat_gcc_ag t = Inr a \<and> family_findings U pat_tsc t = Inr b \<longrightarrow>
      scan_patterns U FILE_LINE_PATTERNS_ag t [] = Inr (take 5 (a @ b))) \<and>
   (family_findings U pat_gcc_ag t = Inr [] \<and> family_findings U pat_tsc t = Inr [] \<longrightarrow>
      extract_findings_ag U (PStr t) h = Inr (keyword_scan U (last_n 300 (splitlines t)) []) \<and>
      list_all unknown_finding (keyword_scan U (last_n 300 (splitlines t)) []))"
proof -
  have tb: "family_findings U pat_tb_ag t = Inr []"
    by (rule unnamed_groups_no_finding) (rule groupindex_pat_tb_ag)+
  have eq: "scan_patterns U FILE_LINE_PATTERNS_ag t [] = scan_patterns U [pat_gcc_ag, pat_tsc] t []"
    unfolding FILE_LINE_PATTERNS_ag_def using tb by (rule scan_without_unnamed)
  have two: "scan_patterns U FILE_LINE_PATTERNS_ag t [] = Inr (take 5 (a @ b))"
    if "family_findings U pat_gcc_ag t = Inr a \<and> family_findings U pat_tsc t = Inr b" for a b
    unfolding eq using that by (blast intro: scan_two)
  have kw: "list_all unknown_finding (keyword_scan U (last_n 300 (splitlines t)) [])"
    by (rule keyword_scan_unknown) simp
  have none: "extract_findings_ag U (PStr t) h = Inr (keyword_scan U (last_n 300 (splitlines t)) [])"
    if "family_findings U pat_gcc_ag t = Inr [] \<and> family_findings U pat_tsc t = Inr []"
    using two [OF that] by (simp add: extract_findings_ag_def extract_text_def)
  from tb eq two kw none show ?thesis by blast
qed

theorem C10_agent_traceback_witness:
  "\<forall>U. family_findings U pat_gcc_ag tb_block = Inr [] \<and>
        family_findings U pat_tsc tb_block = Inr [] \<and>
        family_findings U pat_tb_ag tb_block = Inr [] \<and>
        extract_findings_ag U (PStr tb_block) PNone =
          Inr [\<lparr>f_file = u ''(unknown)'', f_line = 1, f_msg = u ''ValueError: bad''\<rparr>]"
proof (intro allI)
  fix U
  have f: "family_findings U pat_gcc_ag tb_block = Inr []"
    "family_findings U pat_tsc tb_block = Inr []"
    by (rule tb_block_gcc_ag tb_block_tsc)+
  from C10_agent_traceback_family_never_contributes [of U tb_block "[]" "[]" PNone] f
  have "family_findings U pat_tb_ag tb_block = Inr []"
    and "extract_findings_ag U (PStr tb_block) PNone
           = Inr (keyword_scan U (last_n 300 (splitlines tb_block)) [])"
    by blast+
  with f show "family_findings U pat_gcc_ag tb_block = Inr [] \<and>
        family_findings U pat_tsc tb_block = Inr [] \<and>
        family_findings U pat_tb_ag tb_block = Inr [] \<and>
        extract_findings_ag U (PStr tb_block) PNone =
          Inr [\<lparr>f_file = u ''(unknown)'', f_line = 1, f_msg = u ''ValueError: bad''\<rparr>]"
    by (simp add: tb_block_keywords)
qed

section \<open>Claims about the remark selector\<close>

lemma random_choice_single: "random_choice r [x] = x"
  by (simp add: random_choice_def)

text \<open>
  C8: with \<open>basic\<close> true, whatever the language, the remark is the one entry of the basic
  table, which is in no language table, nor in the default or the flavour table. (All three
  selectors.)
\<close>

theorem C8_basic_remark_from_basic_table:
  "brainrot_quip_raw_cr U r lang True = Inr (hd quips_basic_cr) \<and> length quips_basic_cr = 1 \<and>
   hd quips_basic_cr \<notin> set (quips_cpp_cr @ quips_python_cr @ quips_typescript_cr
                               @ quips_default_cr @ quips_italian_cr) \<and>
   brainrot_quip_raw_ag U r lang True = Inr (hd quips_basic_ag) \<and> length quips_basic_ag = 1 \<and>
   hd quips_basic_ag \<notin> set (quips_cpp_ag @ quips_python_ag @ quips_typescript_ag
                               @ quips_default_ag @ quips_italian_ag) \<and>
   quip r l True = hd quips_basic_wh \<and> length quips_basic_wh = 1 \<and>
   hd quips_basic_wh \<notin> set (quips_cpp_wh @ quips_python_wh @ quips_typescript_wh
                               @ quips_default_wh @ ITALIAN)"
proof -
  have cr: "hd quips_basic_cr \<notin> set (quips_cpp_cr @ quips_python_cr @ quips_typescript_cr
                               @ quips_default_cr @ quips_italian_cr)"
    by (simp add: quips_basic_cr_def quips_cpp_cr_def quips_python_cr_def
        quips_typescript_cr_def quips_default_cr_def quips_italian_cr_def u_simps)
  have ag: "hd quips_basic_ag \<notin> set (quips_cpp_ag @ quips_python_ag @ quips_typescript_ag
                               @ quips_default_ag @ quips_italian_ag)"
    by (simp add: quips_basic_ag_def quips_cpp_ag_def quips_python_ag_def
        quips_typescript_ag_def quips_default_ag_def quips_italian_ag_def u_simps)
  have wh: "hd quips_basic_wh \<notin> set (quips_cpp_wh @ quips_python_wh @ quips_typescript_wh
                               @ quips_default_wh @ ITALIAN)"
    by (simp add: quips_basic_wh_def quips_cpp_wh_def quips_python_wh_def
        quips_typescript_wh_def quips_default_wh_def ITALIAN_def u_simps)
  have "brainrot_quip_raw_cr U r lang True = Inr (hd quips_basic_cr)"
    by (simp add: brainrot_quip_raw_cr_def quips_basic_cr_def random_choice_single)
  moreover have "brainrot_quip_raw_ag U r lang True = Inr (hd quips_basic_ag)"
    by (simp add: brainrot_quip_raw_ag_def quips_basic_ag_def random_choice_single)
  moreover have "quip r l True = hd quips_basic_wh"
    by (simp add: quip_def quips_basic_wh_def random_choice_single)
  moreover have "length quips_basic_cr = 1" "length quips_basic_ag = 1" "length quips_basic_wh = 1"
    by (simp_all add: quips_basic_cr_def quips_basic_ag_def quips_basic_wh_def)
  ultimately show ?thesis using cr ag wh by simp
qed

theorem C8_basic_remark_witness:
  "\<forall>U. brainrot_quip_raw_cr U \<lparr>random_below_quarter = True, choice_draw = 7\<rparr> (PStr (u ''python'')) True
          = Inr (u ''Negative Aura'') \<and>
        brainrot_quip_raw_ag U \<lparr>random_below_quarter = True, choice_draw = 7\<rparr> (PStr (u ''python'')) True
          = Inr (u ''Negative Aura'') \<and>
        quip \<lparr>random_below_quarter = True, choice_draw = 7\<rparr> (u ''cpp'') True = hd quips_basic_wh"
  using C8_basic_remark_from_basic_table
          [of _ "\<lparr>random_below_quarter = True, choice_draw = 7\<rparr>" "PStr (u ''python'')" "u ''cpp''"]
  by (simp add: quips_basic_cr_def quips_basic_ag_def)

section \<open>Claims about the composers\<close>

lemma in_cset_Space: "in_cset U Space = is_space"
  by (rule ext) simp

lemma try_lens_nil: "try_lens U [] p s cs (n # ns) = Some (cs, drop n s)"
  by simp

lemma mtch_ws_run:
  "mtch U [R (Rep Space 1 True)] p s [] =
     (if s \<noteq> [] \<and> is_space (hd s) then Some ([], dropWhile is_space s) else None)"
proof (cases "s \<noteq> [] \<and> is_space (hd s)")
  case False
  then have "takeWhile is_space s = []" by (cases s) auto
  with False show ?thesis by (simp add: in_cset_Space)
next
  case True
  let ?n = "length (takeWhile is_space s)"
  from True have pos: "0 < ?n" by (cases s) auto
  then have r: "rev [1..<Suc ?n] = ?n # rev [1..<?n]" by (simp add: Suc_le_eq)
  have d: "drop ?n s = dropWhile is_space s"
    by (simp add: dropWhile_eq_drop)
  have "mtch U [R (Rep Space 1 True)] p s [] = try_lens U [] p s [] (rev [1..<Suc ?n])"
    by (simp add: in_cset_Space Let_def del: upt_Suc try_lens.simps)
  also have "\<dots> = Some ([], drop ?n s)"
    by (simp only: r try_lens_nil)
  finally show ?thesis using True d by simp
qed

lemma sub_ws_squeeze: "sub_from U (Rep Space 1 True) [32] p s = squeeze s"
proof (induction s arbitrary: p rule: length_induct)
  case (1 s)
  show ?case
  proof (cases s)
    case Nil
    then show ?thesis by (subst sub_from.simps) (simp only: mtch_ws_run, simp)
  next
    case (Cons c cs)
    show ?thesis
    proof (cases "is_space c")
      case False
      have "sub_from U (Rep Space 1 True) [32] p (c # cs)
              = c # sub_from U (Rep Space 1 True) [32] (Some c) cs"
        using False by (subst sub_from.simps) (simp only: mtch_ws_run, simp)
      with Cons False 1 show ?thesis by simp
    next
      case True
      let ?rest = "dropWhile is_space (c # cs)"
      have rest: "?rest = dropWhile is_space cs" using True by simp
      have le: "length (dropWhile is_space cs) \<le> length cs" by (rule length_dropWhile_le)
      have n: "length (c # cs) - length ?rest \<noteq> 0" using le True by simp
      have "length (c # cs) - length ?rest = length (takeWhile is_space (c # cs))"
        by (simp only: dropWhile_eq_drop length_drop)
           (simp add: length_takeWhile_le)
      then have d: "drop (length (c # cs) - length ?rest) (c # cs) = ?rest"
        by (simp only: dropWhile_eq_drop)
      have "length (dropWhile is_space cs) < length s" using le Cons by simp
      with 1 have ih: "sub_from U (Rep Space 1 True) [32] q (dropWhile is_space cs)
                         = squeeze (dropWhile is_space cs)" for q by blast
      have m: "mtch U [R (Rep Space 1 True)] p (c # cs) [] = Some ([], ?rest)"
        unfolding mtch_ws_run using True by simp
      have "sub_from U (Rep Space 1 True) [32] p (c # cs)
              = [32] @ sub_from U (Rep Space 1 True) [32]
                         (Some ((c # cs) ! (length (c # cs) - length ?rest - 1))) ?rest"
        by (subst sub_from.simps) (simp only: m option.case prod.case Let_def n if_False d)
      then show ?thesis using Cons True ih rest by simp
    qed
  qed
qed

lemma collapse_ws_squeeze: "collapse_ws U s = squeeze s"
  unfolding collapse_ws_def re_sub_def by (rule sub_ws_squeeze)

text \<open>What \<open>squeeze\<close> leaves: the text without its white space is unchanged, every white
  space character left is a blank, and no two blanks are adjacent.\<close>

lemma squeeze_keeps_text:
  "filter (\<lambda>c. \<not> is_space c) (squeeze s) = filter (\<lambda>c. \<not> is_space c) s"
proof (induction s rule: squeeze.induct)
  case 1
  then show ?case by simp
next
  case (2 c cs)
  have f: "filter (\<lambda>c. \<not> is_space c) (dropWhile is_space cs) = filter (\<lambda>c. \<not> is_space c) cs"
    by (induction cs) auto
  show ?case
  proof (cases "is_space c")
    case True
    with 2 f show ?thesis by (simp add: is_space_def)
  next
    case False
    with 2 show ?thesis by simp
  qed
qed

lemma squeeze_only_blanks: "c \<in> set (squeeze s) \<Longrightarrow> is_space c \<Longrightarrow> c = 32"
proof (induction s rule: squeeze.induct)
  case 1
  then show ?case by simp
next
  case (2 d ds)
  then show ?case by (auto split: if_splits)
qed

lemma hd_dropWhile_not: "dropWhile P xs \<noteq> [] \<Longrightarrow> \<not> P (hd (dropWhile P xs))"
  by (induction xs) auto

lemma squeeze_Nil_iff: "squeeze s = [] \<longleftrightarrow> s = []"
  by (cases s) auto

lemma hd_squeeze_not_space:
  "s \<noteq> [] \<Longrightarrow> \<not> is_space (hd s) \<Longrightarrow> \<not> is_space (hd (squeeze s))"
  by (cases s) auto

lemma squeeze_no_double_blank: "\<not> contains [32, 32] (squeeze s)"
proof (induction s rule: squeeze.induct)
  case 1
  then show ?case by simp
next
  case (2 c cs)
  show ?case
  proof (cases "is_space c")
    case True
    let ?r = "dropWhile is_space cs"
    have "\<not> startswith (32 # squeeze ?r) [32, 32]"
    proof (cases "?r = []")
      case True
      then have "squeeze ?r = []" by (simp only: squeeze.simps(1))
      then show ?thesis by (simp add: startswith_def)
    next
      case False
      then have "\<not> is_space (hd ?r)" by (rule hd_dropWhile_not)
      with False have "\<not> is_space (hd (squeeze ?r))" by (rule hd_squeeze_not_space)
      moreover have "squeeze ?r \<noteq> []" using False by (simp add: squeeze_Nil_iff)
      ultimately show ?thesis
        by (cases "squeeze ?r") (auto simp: startswith_def is_space_def)
    qed
    with 2 True show ?thesis by simp
  next
    case False
    then have "c \<noteq> 32" by (auto simp: is_space_def)
    then have "\<not> startswith (c # squeeze cs) [32, 32]" by (simp add: startswith_def)
    with 2 False show ?thesis by simp
  qed
qed

lemma strip_no_edge_space:
  "strip s \<noteq> [] \<Longrightarrow> \<not> is_space (hd (strip s)) \<and> \<not> is_space (last (strip s))"
proof -
  assume ne: "strip s \<noteq> []"
  let ?a = "dropWhile is_space s"
  let ?b = "dropWhile is_space (rev ?a)"
  have s: "strip s = rev ?b" by (simp add: strip_def)
  with ne have b: "?b \<noteq> []" by simp
  then have hb: "\<not> is_space (hd ?b)" by (rule hd_dropWhile_not)
  have l: "last (strip s) = hd ?b" using b s by (simp add: last_rev)
  have a: "?a \<noteq> []"
  proof
    assume "?a = []"
    then have "?b = []" by (simp only: rev.simps dropWhile.simps)
    with b show False by simp
  qed
  then have ha: "\<not> is_space (hd ?a)" by (rule hd_dropWhile_not)
  have "rev ?a = takeWhile is_space (rev ?a) @ ?b" by simp
  then have "?a = rev ?b @ rev (takeWhile is_space (rev ?a))"
    by (metis rev_append rev_rev_ident)
  then have "hd ?a = hd (rev ?b)" using b by (metis hd_append2 rev_is_Nil_conv)
  with ha hb l s show ?thesis by simp
qed

lemma last_squeeze_not_space:
  "s \<noteq> [] \<Longrightarrow> \<not> is_space (last s) \<Longrightarrow> \<not> is_space (last (squeeze s))"
proof (induction s rule: squeeze.induct)
  case 1
  then show ?case by simp
next
  case (2 c cs)
  show ?case
  proof (cases "is_space c")
    case True
    let ?r = "dropWhile is_space cs"
    from "2.prems"(2) True have cs: "cs \<noteq> []" by (cases cs) auto
    have r: "?r \<noteq> []"
    proof
      assume "?r = []"
      then have "\<forall>x \<in> set cs. is_space x" by (simp add: dropWhile_eq_Nil_conv)
      with cs have "is_space (last cs)" by simp
      with "2.prems"(2) cs show False by simp
    qed
    have "cs = takeWhile is_space cs @ ?r" by simp
    then have "last cs = last ?r" using r by (metis last_appendR)
    with "2.prems"(2) cs have "\<not> is_space (last ?r)" by simp
    with "2.IH"(1) [OF True r] have nsp: "\<not> is_space (last (squeeze ?r))" by simp
    have sq: "squeeze ?r \<noteq> []" using r squeeze_Nil_iff [of ?r] by blast
    have "squeeze (c # cs) = 32 # squeeze ?r" using True by simp
    then have "last (squeeze (c # cs)) = last (squeeze ?r)" using sq by (simp only: last.simps if_False)
    with nsp show ?thesis by metis
  next
    case False
    show ?thesis
    proof (cases "cs = []")
      case True
      with False show ?thesis by simp
    next
      case ne: False
      with "2.prems"(2) have "\<not> is_space (last cs)" by simp
      with "2.IH"(2) [OF False ne] have nsp: "\<not> is_space (last (squeeze cs))" by simp
      have sq: "squeeze cs \<noteq> []" using ne squeeze_Nil_iff [of cs] by blast
      have "squeeze (c # cs) = c # squeeze cs" using False by simp
      then have "last (squeeze (c # cs)) = last (squeeze cs)" using sq by (simp only: last.simps if_False)
      with nsp show ?thesis by metis
    qed
  qed
qed

lemma filter_dropWhile_not:
  "filter (\<lambda>c. \<not> P c) (dropWhile P xs) = filter (\<lambda>c. \<not> P c) xs"
  by (induction xs) auto

lemma strip_keeps_text:
  "filter (\<lambda>c. \<not> is_space c) (strip s) = filter (\<lambda>c. \<not> is_space c) s"
proof -
  have "filter (\<lambda>c. \<not> is_space c) (strip s)
          = rev (filter (\<lambda>c. \<not> is_space c) (dropWhile is_space (rev (dropWhile is_space s))))"
    by (simp add: strip_def rev_filter)
  also have "\<dots> = rev (filter (\<lambda>c. \<not> is_space c) (rev (dropWhile is_space s)))"
    by (simp only: filter_dropWhile_not)
  also have "\<dots> = filter (\<lambda>c. \<not> is_space c) (dropWhile is_space s)"
    by (simp add: rev_filter)
  also have "\<dots> = filter (\<lambda>c. \<not> is_space c) s"
    by (rule filter_dropWhile_not)
  finally show ?thesis .
qed

lemma normalised_reply:
  fixes reply :: ustr
  defines "t \<equiv> squeeze (strip reply)"
  shows "filter (\<lambda>c. \<not> is_space c) t = filter (\<lambda>c. \<not> is_space c) reply"
    and "list_all (\<lambda>c. is_space c = (c = 32)) t"
    and "\<not> contains [32, 32] t"
    and "t = [] \<or> (\<not> is_space (hd t) \<and> \<not> is_space (last t))"
proof -
  have t: "t = squeeze (strip reply)" by (simp add: t_def)
  show "filter (\<lambda>c. \<not> is_space c) t = filter (\<lambda>c. \<not> is_space c) reply"
    by (simp add: t squeeze_keeps_text strip_keeps_text)
  have "is_space 32" by (simp add: is_space_def)
  then show "list_all (\<lambda>c. is_space c = (c = 32)) t"
    unfolding t list_all_iff using squeeze_only_blanks by blast
  show "\<not> contains [32, 32] t" by (simp add: t squeeze_no_double_blank)
  show "t = [] \<or> (\<not> is_space (hd t) \<and> \<not> is_space (last t))"
  proof (cases "strip reply = []")
    case True
    then show ?thesis by (simp add: t)
  next
    case False
    then have "\<not> is_space (hd (strip reply)) \<and> \<not> is_space (last (strip reply))"
      by (rule strip_no_edge_space)
    with False show ?thesis
      by (simp add: t hd_squeeze_not_space last_squeeze_not_space)
  qed
qed

lemma llm_reply_fails:
  "(ASI1_API_KEY e = [] \<or> \<not> truthy_str (asi_chat_once e req)) \<Longrightarrow>
   \<not> truthy_str (free_llm_chat_once e req) \<Longrightarrow> \<not> truthy_str (llm_reply e req)"
  by (auto simp: llm_reply_def truthy_str_def Let_def split: option.splits)

lemma llm_reply_succeeds:
  "(ASI1_API_KEY e \<noteq> [] \<and> asi_chat_once e req = Some reply) \<or>
   ((ASI1_API_KEY e = [] \<or> \<not> truthy_str (asi_chat_once e req)) \<and>
     free_llm_chat_once e req = Some reply) \<Longrightarrow>
   reply \<noteq> [] \<Longrightarrow> llm_reply e req = Some reply"
  by (auto simp: llm_reply_def truthy_str_def Let_def split: option.splits)

text \<open>
  C6: the explanation is absent when both attempts fail (the primary one is not configured
  or gives nothing, and the local one gives nothing), and for an empty list of findings.
  When an attempt gives a non-empty reply, the explanation is the reply stripped and with
  each run of white space made one blank, cut to 350 characters with an ellipsis (U+2026)
  appended exactly when that text is longer than 350; so it has at most 351 characters.
\<close>

theorem C6_explanation_absent_or_normalised_and_truncated:
  "llm_solution_text U e [] lang = None \<and>
   ((ASI1_API_KEY e = [] \<or> \<not> truthy_str (asi_chat_once e (SolutionRequest lang f0))) \<and>
    \<not> truthy_str (free_llm_chat_once e (SolutionRequest lang f0))
      \<longrightarrow> llm_solution_text U e (f0 # fs) lang = None) \<and>
   (((ASI1_API_KEY e \<noteq> [] \<and> asi_chat_once e (SolutionRequest lang f0) = Some reply) \<or>
     ((ASI1_API_KEY e = [] \<or> \<not> truthy_str (asi_chat_once e (SolutionRequest lang f0))) \<and>
       free_llm_chat_once e (SolutionRequest lang f0) = Some reply)) \<and> reply \<noteq> []
      \<longrightarrow> llm_solution_text U e (f0 # fs) lang
            = Some (if 350 < length (squeeze (strip reply))
                    then take 350 (squeeze (strip reply)) @ [8230]
                    else squeeze (strip reply)) \<and>
          (\<exists>x. llm_solution_text U e (f0 # fs) lang = Some x \<and> length x \<le> 351))"
proof (intro conjI impI)
  show "llm_solution_text U e [] lang = None"
    by (simp add: llm_solution_text_def)
next
  assume "(ASI1_API_KEY e = [] \<or> \<not> truthy_str (asi_chat_once e (SolutionRequest lang f0))) \<and>
    \<not> truthy_str (free_llm_chat_once e (SolutionRequest lang f0))"
  then have "\<not> truthy_str (llm_reply e (SolutionRequest lang f0))"
    using llm_reply_fails by blast
  then show "llm_solution_text U e (f0 # fs) lang = None"
    by (auto simp: llm_solution_text_def truthy_str_def split: option.splits)
next
  assume a: "((ASI1_API_KEY e \<noteq> [] \<and> asi_chat_once e (SolutionRequest lang f0) = Some reply) \<or>
     ((ASI1_API_KEY e = [] \<or> \<not> truthy_str (asi_chat_once e (SolutionRequest lang f0))) \<and>
       free_llm_chat_once e (SolutionRequest lang f0) = Some reply)) \<and> reply \<noteq> []"
  then have "llm_reply e (SolutionRequest lang f0) = Some reply"
    using llm_reply_succeeds by blast
  with a show eq: "llm_solution_text U e (f0 # fs) lang
      = Some (if 350 < length (squeeze (strip reply))
              then take 350 (squeeze (strip reply)) @ [8230] else squeeze (strip reply))"
    by (simp add: llm_solution_text_def Let_def collapse_ws_squeeze)
  show "\<exists>x. llm_solution_text U e (f0 # fs) lang = Some x \<and> length x \<le> 351"
    unfolding eq by simp
qed

lemmas run_compose = u_simps Let_def no_llm_def llm_says_def missing_foo_def missing_linker_def
  compile_error_def truthy_str_def llm_reply_def llm_one_liner_def llm_solution_text_def
  micro_fix_suggestion_def concise_fix_or_summary_cr_def concise_fix_or_summary_ag_def
  heuristic_fix_ag_def
  heuristic_fix_cr_def roast_tip_def tip_ag_def loc_of_def with_loc_def str_of_int_def
  lower_def lower_cp_def startswith_def strip_def is_space_def collapse_ws_squeeze

theorem C6_explanation_witness:
  "\<forall>U. ASI1_API_KEY no_llm = [] \<and>
        free_llm_chat_once no_llm (SolutionRequest PNone compile_error) = None \<and>
        llm_solution_text U no_llm [compile_error] PNone = None \<and>
        ASI1_API_KEY (llm_says (u '' add  a return '')) \<noteq> [] \<and>
        asi_chat_once (llm_says (u '' add  a return '')) (SolutionRequest PNone compile_error)
          = Some (u '' add  a return '') \<and>
        llm_solution_text U (llm_says (u '' add  a return '')) [compile_error] PNone
          = Some (u ''add a return'')"
proof (intro allI)
  fix U
  have n: "ASI1_API_KEY no_llm = []"
    "free_llm_chat_once no_llm (SolutionRequest PNone compile_error) = None"
    by (simp_all add: no_llm_def)
  have s: "ASI1_API_KEY (llm_says (u '' add  a return '')) \<noteq> []"
    "asi_chat_once (llm_says (u '' add  a return '')) (SolutionRequest PNone compile_error)
       = Some (u '' add  a return '')"
    "u '' add  a return '' \<noteq> []"
    by (simp_all add: llm_says_def u_simps)
  have q: "squeeze (strip (u '' add  a return '')) = u ''add a return''"
    by (simp add: strip_def is_space_def u_simps)
  from C6_explanation_absent_or_normalised_and_truncated [of U no_llm PNone compile_error "[]"] n
  have 1: "llm_solution_text U no_llm [compile_error] PNone = None"
    by (simp add: truthy_str_def)
  from C6_explanation_absent_or_normalised_and_truncated
         [of U "llm_says (u '' add  a return '')" PNone compile_error "[]" "u '' add  a return ''"] s
  have "llm_solution_text U (llm_says (u '' add  a return '')) [compile_error] PNone
          = Some (if 350 < length (squeeze (strip (u '' add  a return '')))
                  then take 350 (squeeze (strip (u '' add  a return ''))) @ [8230]
                  else squeeze (strip (u '' add  a return '')))"
    by blast
  then have 2: "llm_solution_text U (llm_says (u '' add  a return '')) [compile_error] PNone
          = Some (u ''add a return'')"
    unfolding q by (simp add: u_simps)
  from n s(1,2) 1 2
  show "ASI1_API_KEY no_llm = [] \<and>
        free_llm_chat_once no_llm (SolutionRequest PNone compile_error) = None \<and>
        llm_solution_text U no_llm [compile_error] PNone = None \<and>
        ASI1_API_KEY (llm_says (u '' add  a return '')) \<noteq> [] \<and>
        asi_chat_once (llm_says (u '' add  a return '')) (SolutionRequest PNone compile_error)
          = Some (u '' add  a return '') \<and>
        llm_solution_text U (llm_says (u '' add  a return '')) [compile_error] PNone
          = Some (u ''add a return'')"
    by (simp only: simp_thms)
qed

text \<open>
  C4, as stated: with both oracle tiers absent, a top message of the \<open>ModuleNotFoundError\<close>
  kind gets the "not installed" tip. The table is read in order, and the message of a
  missing module named \<open>linker\<close> is taken by the link-error rule, which stands before the
  missing-module rule. (And the tables of \<^verbatim>\<open>agent/agent.py\<close> and \<^verbatim>\<open>agent/webhook.py\<close> have no
  missing-module rule: there such a message gets the catch-all tip.)
\<close>

theorem C4_missing_module_message_taken_by_link_rule:
  "\<forall>U. contains (u ''modulenotfounderror'') (lower U (f_msg missing_linker)) \<and>
   concise_fix_or_summary_cr U no_llm [missing_linker] PNone = u ''a.py:3 '' @ [8212] @ u '' '' @ [129313] @ u '' linker cooked '' @ [8212] @ u '' link missing obj/lib or implement the symbol.'' \<and>
   \<not> contains (u ''not installed'') (concise_fix_or_summary_cr U no_llm [missing_linker] PNone) \<and>
   concise_fix_or_summary_ag U no_llm [missing_foo] PNone = u ''a.py:3 '' @ [8212] @ u '' fix the first reported error; later ones cascade'' \<and>
   fix_line U (Some (u ''a.py'', 3, f_msg missing_foo)) = u ''a.py:3 '' @ [8212] @ u '' fix the first reported error; later ones cascade''"
proof (intro allI)
  fix U
  have 1: "concise_fix_or_summary_cr U no_llm [missing_linker] PNone = u ''a.py:3 '' @ [8212] @ u '' '' @ [129313] @ u '' linker cooked '' @ [8212] @ u '' link missing obj/lib or implement the symbol.''"
    by (simp add: run_compose)
  have 2: "contains (u ''modulenotfounderror'') (lower U (f_msg missing_linker))"
    by (simp add: run_compose)
  have 3: "\<not> contains (u ''not installed'') (u ''a.py:3 '' @ [8212] @ u '' '' @ [129313] @ u '' linker cooked '' @ [8212] @ u '' link missing obj/lib or implement the symbol.'')"
    by (simp add: u_simps startswith_def)
  have 4: "concise_fix_or_summary_ag U no_llm [missing_foo] PNone = u ''a.py:3 '' @ [8212] @ u '' fix the first reported error; later ones cascade''"
    by (simp add: run_compose squeeze.simps)
  have 5: "fix_line U (Some (u ''a.py'', 3, f_msg missing_foo)) = u ''a.py:3 '' @ [8212] @ u '' fix the first reported error; later ones cascade''"
    by (simp add: fix_line_def run_compose)
  from 1 2 3 4 5 show "contains (u ''modulenotfounderror'') (lower U (f_msg missing_linker)) \<and>
   concise_fix_or_summary_cr U no_llm [missing_linker] PNone = u ''a.py:3 '' @ [8212] @ u '' '' @ [129313] @ u '' linker cooked '' @ [8212] @ u '' link missing obj/lib or implement the symbol.'' \<and>
   \<not> contains (u ''not installed'') (concise_fix_or_summary_cr U no_llm [missing_linker] PNone) \<and>
   concise_fix_or_summary_ag U no_llm [missing_foo] PNone = u ''a.py:3 '' @ [8212] @ u '' fix the first reported error; later ones cascade'' \<and>
   fix_line U (Some (u ''a.py'', 3, f_msg missing_foo)) = u ''a.py:3 '' @ [8212] @ u '' fix the first reported error; later ones cascade''"
    by (simp only: simp_thms)
qed

text \<open>
  C4, amended: in \<^verbatim>\<open>Chaos Reviewer/Agent.py\<close>, with both oracle tiers absent, a non-empty
  findings list whose lowercased top message contains \<open>modulenotfounderror\<close> and none of the
  substrings of the rules before it gets the "not installed" line, after the location when
  there is one; and the explanation is absent.
\<close>

theorem C4_missing_module_tip_when_oracles_absent:
  assumes "\<And>req. asi_chat_once e req = None" and "\<And>req. free_llm_chat_once e req = None"
    and "contains (u ''modulenotfounderror'') (lower U (f_msg f0))"
    and "list_all (\<lambda>k. \<not> contains k (lower U (f_msg f0)))
           [u ''zerodivisionerror'', u ''division by zero'', u ''control reaches end of non-void'',
            u ''undefined reference'', u ''ld returned 1 exit'', u ''linker'']"
  shows "concise_fix_or_summary_cr U e (f0 # fs) lang =
           (if loc_of f0 = [] then ([128230] @ u '' not installed, bestie '' @ [8212] @ u '' pip install it / add to requirements.txt.'')
            else loc_of f0 @ [32, 8212, 32] @ ([128230] @ u '' not installed, bestie '' @ [8212] @ u '' pip install it / add to requirements.txt.'')) \<and>
         llm_solution_text U e (f0 # fs) lang = None"
proof -
  have r: "llm_reply e req = None" for req
    using assms(1,2) by (simp add: llm_reply_def truthy_str_def)
  have "roast_tip (lower U (f_msg f0)) =
          ([128230] @ u '' not installed, bestie '' @ [8212],
           u ''pip install it / add to requirements.txt.'')"
    using assms(3,4) by (simp add: roast_tip_def)
  then have "heuristic_fix_cr U (f0 # fs) =
           (if loc_of f0 = [] then ([128230] @ u '' not installed, bestie '' @ [8212] @ u '' pip install it / add to requirements.txt.'')
            else loc_of f0 @ [32, 8212, 32] @ ([128230] @ u '' not installed, bestie '' @ [8212] @ u '' pip install it / add to requirements.txt.''))"
    by (simp add: heuristic_fix_cr_def with_loc_def u_simps)
  then show ?thesis
    by (simp add: concise_fix_or_summary_cr_def llm_one_liner_def llm_solution_text_def r
        truthy_str_def)
qed

theorem C4_missing_module_tip_witness:
  "\<forall>U. contains (u ''modulenotfounderror'') (lower U (f_msg missing_foo)) \<and>
   concise_fix_or_summary_cr U no_llm [missing_foo] PNone =
     u ''a.py:3'' @ [32, 8212, 32] @ ([128230] @ u '' not installed, bestie '' @ [8212] @ u '' pip install it / add to requirements.txt.'') \<and>
   llm_solution_text U no_llm [missing_foo] PNone = None"
proof (intro allI)
  fix U
  have a: "\<And>req. asi_chat_once no_llm req = None" "\<And>req. free_llm_chat_once no_llm req = None"
    by (simp_all add: no_llm_def)
  have c: "contains (u ''modulenotfounderror'') (lower U (f_msg missing_foo))"
    by (simp add: run_compose)
  have k: "list_all (\<lambda>k. \<not> contains k (lower U (f_msg missing_foo)))
           [u ''zerodivisionerror'', u ''division by zero'', u ''control reaches end of non-void'',
            u ''undefined reference'', u ''ld returned 1 exit'', u ''linker'']"
    by (simp add: run_compose)
  have l: "loc_of missing_foo = u ''a.py:3''"
    by (simp add: run_compose)
  from C4_missing_module_tip_when_oracles_absent [OF a c k, of "[]" PNone] c l
  show "contains (u ''modulenotfounderror'') (lower U (f_msg missing_foo)) \<and>
   concise_fix_or_summary_cr U no_llm [missing_foo] PNone =
     u ''a.py:3'' @ [32, 8212, 32] @ ([128230] @ u '' not installed, bestie '' @ [8212] @ u '' pip install it / add to requirements.txt.'') \<and>
   llm_solution_text U no_llm [missing_foo] PNone = None"
    by (simp add: u_simps)
qed

text \<open>
  C5, as stated: the prefix \<open>file:line\<close>, dash, is prepended exactly when the oracle's text
  does not already begin with it. In \<^verbatim>\<open>Chaos Reviewer/Agent.py\<close> the test is on \<open>file:line\<close>
  alone and ignores case: the reply \<^verbatim>\<open>A.C:1: add a return\<close> for a finding at \<^verbatim>\<open>a.c:1\<close> begins
  neither with \<^verbatim>\<open>a.c:1\<close> nor with the prefix, and is returned as it is. (And
  \<^verbatim>\<open>agent/agent.py\<close> makes no test: a reply that begins with the prefix gets it again.)
\<close>

theorem C5_prefix_test_ignores_case_and_dash:
  "\<forall>U. llm_one_liner (llm_says (u ''A.C:1: add a return'')) [compile_error]
          = Some (u ''A.C:1: add a return'') \<and>
        \<not> startswith (u ''A.C:1: add a return'') (u ''a.c:1'') \<and>
        \<not> startswith (u ''A.C:1: add a return'') (u ''a.c:1 '' @ [8212] @ u '' '') \<and>
        concise_fix_or_summary_cr U (llm_says (u ''A.C:1: add a return'')) [compile_error] PNone
          = u ''A.C:1: add a return'' \<and>
        micro_fix_suggestion (llm_says (u ''a.c:1 '' @ [8212] @ u '' add a return'')) [compile_error]
          = Some (u ''a.c:1 '' @ [8212] @ u '' add a return'') \<and>
        concise_fix_or_summary_ag U (llm_says (u ''a.c:1 '' @ [8212] @ u '' add a return''))
            [compile_error] PNone
          = u ''a.c:1 '' @ [8212] @ u '' a.c:1 '' @ [8212] @ u '' add a return''"
proof (intro allI)
  fix U
  have 1: "llm_one_liner (llm_says (u ''A.C:1: add a return'')) [compile_error]
     = Some (u ''A.C:1: add a return'')"
    by (simp add: run_compose)
  have 2: "\<not> startswith (u ''A.C:1: add a return'') (u ''a.c:1'')"
    "\<not> startswith (u ''A.C:1: add a return'') (u ''a.c:1 '' @ [8212] @ u '' '')"
    by (simp_all add: run_compose)
  have 3: "concise_fix_or_summary_cr U (llm_says (u ''A.C:1: add a return'')) [compile_error] PNone
     = u ''A.C:1: add a return''"
    by (simp add: run_compose)
  have 4: "micro_fix_suggestion (llm_says (u ''a.c:1 '' @ [8212] @ u '' add a return'')) [compile_error]
          = Some (u ''a.c:1 '' @ [8212] @ u '' add a return'')"
    by (simp add: run_compose)
  have 5: "concise_fix_or_summary_ag U (llm_says (u ''a.c:1 '' @ [8212] @ u '' add a return''))
            [compile_error] PNone
     = u ''a.c:1 '' @ [8212] @ u '' a.c:1 '' @ [8212] @ u '' add a return''"
    by (simp add: run_compose)
  from 1 2 3 4 5
  show "llm_one_liner (llm_says (u ''A.C:1: add a return'')) [compile_error]
          = Some (u ''A.C:1: add a return'') \<and>
        \<not> startswith (u ''A.C:1: add a return'') (u ''a.c:1'') \<and>
        \<not> startswith (u ''A.C:1: add a return'') (u ''a.c:1 '' @ [8212] @ u '' '') \<and>
        concise_fix_or_summary_cr U (llm_says (u ''A.C:1: add a return'')) [compile_error] PNone
          = u ''A.C:1: add a return'' \<and>
        micro_fix_suggestion (llm_says (u ''a.c:1 '' @ [8212] @ u '' add a return'')) [compile_error]
          = Some (u ''a.c:1 '' @ [8212] @ u '' add a return'') \<and>
        concise_fix_or_summary_ag U (llm_says (u ''a.c:1 '' @ [8212] @ u '' add a return''))
            [compile_error] PNone
          = u ''a.c:1 '' @ [8212] @ u '' a.c:1 '' @ [8212] @ u '' add a return''"
    by (simp only: simp_thms)
qed

text \<open>
  C5, amended: in \<^verbatim>\<open>Chaos Reviewer/Agent.py\<close>, for a top finding with a file and a line, a
  non-empty text from the generative tier gets the prefix \<open>file:line\<close>, dash, exactly when
  the text, lowercased by \<open>str.lower\<close>, does not begin with the lowercased \<open>file:line\<close>;
  otherwise it is returned as it is.
\<close>

theorem C5_prefix_prepended_unless_text_begins_with_location:
  assumes "f_file f0 \<noteq> []" and "f_line f0 \<noteq> 0"
    and "llm_one_liner e (f0 # fs) = Some fix" and "fix \<noteq> []"
  shows "concise_fix_or_summary_cr U e (f0 # fs) lang =
           (if startswith (lower U fix) (lower U (f_file f0 @ [58] @ str_of_int (f_line f0)))
            then fix
            else f_file f0 @ [58] @ str_of_int (f_line f0) @ [32, 8212, 32] @ fix)"
proof -
  let ?loc = "f_file f0 @ [58] @ str_of_int (f_line f0)"
  have loc: "loc_of f0 = ?loc" "?loc \<noteq> []" using assms(1,2) by (simp_all add: loc_of_def)
  show ?thesis
    using assms(3,4) loc by (simp add: concise_fix_or_summary_cr_def with_loc_def Let_def)
qed

theorem C5_prefix_prepended_witness:
  "\<forall>U. f_file compile_error \<noteq> [] \<and> f_line compile_error \<noteq> 0 \<and>
        llm_one_liner (llm_says (u ''add a return'')) [compile_error] = Some (u ''add a return'') \<and>
        concise_fix_or_summary_cr U (llm_says (u ''add a return'')) [compile_error] PNone
          = u ''a.c:1 '' @ [8212] @ u '' add a return'' \<and>
        llm_one_liner (llm_says (u ''a.c:1: add a return'')) [compile_error]
          = Some (u ''a.c:1: add a return'') \<and>
        concise_fix_or_summary_cr U (llm_says (u ''a.c:1: add a return'')) [compile_error] PNone
          = u ''a.c:1: add a return''"
proof (intro allI)
  fix U
  have f: "f_file compile_error \<noteq> []" "f_line compile_error \<noteq> 0"
    by (simp_all add: compile_error_def u_simps)
  have a: "llm_one_liner (llm_says (u ''add a return'')) [compile_error] = Some (u ''add a return'')"
    by (simp add: run_compose)
  have b: "llm_one_liner (llm_says (u ''a.c:1: add a return'')) [compile_error]
             = Some (u ''a.c:1: add a return'')"
    by (simp add: run_compose)
  have na: "u ''add a return'' \<noteq> []" and nb: "u ''a.c:1: add a return'' \<noteq> []"
    by (simp_all add: u_simps)
  from C5_prefix_prepended_unless_text_begins_with_location [OF f a na, of U PNone]
  have 1: "concise_fix_or_summary_cr U (llm_says (u ''add a return'')) [compile_error] PNone
     = u ''a.c:1 '' @ [8212] @ u '' add a return''"
    by (simp add: compile_error_def str_of_int_def lower_def lower_cp_def startswith_def u_simps)
  from C5_prefix_prepended_unless_text_begins_with_location [OF f b nb, of U PNone]
  have 2: "concise_fix_or_summary_cr U (llm_says (u ''a.c:1: add a return'')) [compile_error] PNone
     = u ''a.c:1: add a return''"
    by (simp add: compile_error_def str_of_int_def lower_def lower_cp_def startswith_def u_simps)
  from f a b 1 2
  show "f_file compile_error \<noteq> [] \<and> f_line compile_error \<noteq> 0 \<and>
        llm_one_liner (llm_says (u ''add a return'')) [compile_error] = Some (u ''add a return'') \<and>
        concise_fix_or_summary_cr U (llm_says (u ''add a return'')) [compile_error] PNone
          = u ''a.c:1 '' @ [8212] @ u '' add a return'' \<and>
        llm_one_liner (llm_says (u ''a.c:1: add a return'')) [compile_error]
          = Some (u ''a.c:1: add a return'') \<and>
        concise_fix_or_summary_cr U (llm_says (u ''a.c:1: add a return'')) [compile_error] PNone
          = u ''a.c:1: add a return''"
    by (simp only: simp_thms)
qed

section \<open>Claims about the reply assembler\<close>

lemmas run_handler = run_regex re_search_def mk_match_def lit_ci_def ci_class_def
  SUCCESS_PAT_def PRAISE_PAT_def GREET_PAT_def looks_like_success_def
  collect_text_def strip_def py_or_def has_key_def context_lang_def stripped_field_def
  py_strip_def acked_def send_two_bubbles_def send_two_lines_def
  no_llm_def draw0_def random_choice_def dict_get_default_def lower_def lower_cp_def

text \<open>
  The handler of \<^verbatim>\<open>Chaos Reviewer/Agent.py\<close> on a greeting: two chat messages, the fixed line
  and a remark from the default table, then the acknowledgement.
\<close>

lemma greeting_turn_cr:
  "on_chat_or_review_cr U no_llm draw0 [TextContent (u ''hi'')] =
     Inr [ChatMessage [u ''shut up and provide the error''],
          ChatMessage [u ''Cooked build. Not the mosquito again.''],
          ChatAcknowledgement]"
  by (simp add: on_chat_or_review_cr_def triage_cr_def reply_fixed_cr_def brainrot_quip_raw_cr_def
      QUIPS_BRAINROT_cr_def quips_default_cr_def extract_cr_text empty_text_cr run_handler
      run_extract)

lemma number_envelope_turns:
  "strip (collect_text [TextContent number_envelope]) \<noteq> [] \<and>
   on_chat_or_review_cr U loads_number_envelope draw0 [TextContent number_envelope]
     = Inl AttributeError \<and>
   on_chat_or_review_ag U loads_number_envelope draw0 {} (u ''sender'') [TextContent number_envelope]
     = ({}, [], Some TypeError)"
proof -
  have s: "strip (collect_text [TextContent number_envelope]) = number_envelope"
    by (simp add: number_envelope_def run_handler)
  have ne: "number_envelope \<noteq> []"
    by (simp add: number_envelope_def u_simps)
  have ok: "\<not> looks_like_success U number_envelope"
    by (simp add: number_envelope_def run_handler)
  have pr: "re_search U PRAISE_PAT number_envelope = None"
    by (simp add: number_envelope_def run_handler)
  have j: "json_loads loads_number_envelope number_envelope
             = Some number_data"
    by (simp add: loads_number_envelope_def)
  have cr: "envelope_cr U loads_number_envelope draw0 number_data
              number_envelope = Inl AttributeError"
    by (simp add: envelope_cr_def number_data_def context_lang_def stripped_field_def
        py_strip_def py_or_def u_simps)
  have ag: "turn_ag U loads_number_envelope draw0 number_envelope = Inl TypeError"
    by (simp add: turn_ag_def pr j number_data_def has_key_def context_lang_def py_or_def
        extract_findings_ag_def u_simps)
  have 1: "on_chat_or_review_cr U loads_number_envelope draw0 [TextContent number_envelope]
     = Inl AttributeError"
  proof -
    have k: "has_key number_data (u ''log_tail'')"
      by (simp add: has_key_def number_data_def u_simps)
    show ?thesis
      by (simp add: on_chat_or_review_cr_def s ne ok pr j cr k)
  qed
  have 2: "on_chat_or_review_ag U loads_number_envelope draw0 {} (u ''sender'')
             [TextContent number_envelope] = ({}, [], Some TypeError)"
    by (simp add: on_chat_or_review_ag_def s ne ag)
  from s ne 1 2 show ?thesis by (simp only: simp_thms)
qed

text \<open>
  C7 says that every non-empty inbound text, however malformed, JSON envelopes with values
  of unexpected types among them, gets a reply of exactly two text segments, and that the
  handler does not raise. On the chat text \<^verbatim>\<open>{"log_tail": 5}\<close>, a JSON envelope whose
  \<open>log_tail\<close> is a number, the handler of \<^verbatim>\<open>Chaos Reviewer/Agent.py\<close> calls \<open>strip\<close> on the
  number and leaves with \<open>AttributeError\<close>; the handler of \<^verbatim>\<open>agent/agent.py\<close> hands the number
  to the extractor and leaves with \<open>TypeError\<close>. Neither has sent anything.
\<close>

theorem C7_number_envelope_raises:
  "\<forall>U. strip (collect_text [TextContent number_envelope]) \<noteq> [] \<and>
        on_chat_or_review_cr U loads_number_envelope draw0 [TextContent number_envelope]
          = Inl AttributeError \<and>
        on_chat_or_review_ag U loads_number_envelope draw0 {} (u ''sender'') [TextContent number_envelope]
          = ({}, [], Some TypeError)"
  by (intro allI) (rule number_envelope_turns)

section \<open>Claims about the polling bridge\<close>






end
